theory Spec2Isabelle
  imports Complex_Main
begin

section \<open>The merge engine of src/lib/excel-utils.ts\<close>

text \<open>
  The theory embeds the functions of \<^verbatim>\<open>src/lib/excel-utils.ts\<close>: the column codec, the
  three row classifiers, the cell value extractor, the row copier and the merge
  orchestrator. A workbook is taken as the spreadsheet library hands it over after
  parsing: a list of named sheets, a sheet a list of rows (row \<open>n\<close> at position \<open>n - 1\<close>),
  a row a list of cells (column \<open>c\<close> at position \<open>c - 1\<close>). Reading a row or a cell that
  is not there yields an empty one, as \<^verbatim>\<open>getRow\<close> and \<^verbatim>\<open>getCell\<close> do.
  Column widths and merged ranges are attributes of a sheet beside its rows; they are
  not part of this model, nor is the serialisation of the workbook to bytes.
\<close>

subsection \<open>Strings of the runtime\<close>

text \<open>
  A JavaScript string is a sequence of UTF-16 code units, each a number as
  \<^verbatim>\<open>charCodeAt\<close> gives it. \<open>str\<close> turns an ASCII literal into one.
\<close>

type_synonym jsstring = "int list"

definition str :: "string \<Rightarrow> jsstring" where
  "str s = map of_char s"

text \<open>White space and line terminators, the code units \<^verbatim>\<open>trim\<close> removes at both ends.\<close>

definition isWhiteSpace :: "int \<Rightarrow> bool" where
  "isWhiteSpace c =
     (c = 9 \<or> c = 10 \<or> c = 11 \<or> c = 12 \<or> c = 13 \<or> c = 32 \<or> c = 160 \<or> c = 5760
      \<or> (8192 \<le> c \<and> c \<le> 8202) \<or> c = 8232 \<or> c = 8233 \<or> c = 8239 \<or> c = 8287
      \<or> c = 12288 \<or> c = 65279)"

definition trim :: "jsstring \<Rightarrow> jsstring" where
  "trim s = rev (dropWhile isWhiteSpace (rev (dropWhile isWhiteSpace s)))"

text \<open>
  Case mapping. The runtime's table is not part of the repository; the model maps the
  letters of Basic Latin, of Latin-1 (\<open>U+00C0\<close> to \<open>U+00DE\<close> without \<open>U+00D7\<close>), the
  Vietnamese letters \<open>U+0102\<close>, \<open>U+0110\<close>, \<open>U+0128\<close>, \<open>U+0168\<close>, \<open>U+01A0\<close>, \<open>U+01AF\<close> and
  the pairs of \<open>U+1EA0\<close> to \<open>U+1EF9\<close>, and leaves every other code unit as it is.
\<close>

definition lowerUnit :: "int \<Rightarrow> int" where
  "lowerUnit c =
     (if 65 \<le> c \<and> c \<le> 90 then c + 32
      else if 192 \<le> c \<and> c \<le> 222 \<and> c \<noteq> 215 then c + 32
      else if c = 258 \<or> c = 272 \<or> c = 296 \<or> c = 360 \<or> c = 416 then c + 1
      else if c = 431 then 432
      else if 7840 \<le> c \<and> c \<le> 7929 \<and> even c then c + 1
      else c)"

definition upperUnit :: "int \<Rightarrow> int" where
  "upperUnit c =
     (if 97 \<le> c \<and> c \<le> 122 then c - 32
      else if 224 \<le> c \<and> c \<le> 254 \<and> c \<noteq> 247 then c - 32
      else if c = 259 \<or> c = 273 \<or> c = 297 \<or> c = 361 \<or> c = 417 then c - 1
      else if c = 432 then 431
      else if 7840 \<le> c \<and> c \<le> 7929 \<and> odd c then c - 1
      else c)"

definition toLowerCase :: "jsstring \<Rightarrow> jsstring" where
  "toLowerCase s = map lowerUnit s"

definition toUpperCase :: "jsstring \<Rightarrow> jsstring" where
  "toUpperCase s = map upperUnit s"

text \<open>\<^verbatim>\<open>s.includes(k)\<close>: \<open>k\<close> occurs in \<open>s\<close> as a contiguous run.\<close>

fun jsIncludes :: "jsstring \<Rightarrow> jsstring \<Rightarrow> bool" where
  "jsIncludes [] k = (k = [])"
| "jsIncludes (c # s) k = (take (length k) (c # s) = k \<or> jsIncludes s k)"

text \<open>
  \<^verbatim>\<open>!isNaN(Number(s))\<close>: the string, white space removed at both ends, is empty (the
  number 0) or a numeric literal: an optionally signed decimal literal with optional
  fraction and exponent, \<^verbatim>\<open>Infinity\<close>, or an unsigned binary, octal or hexadecimal
  integer literal.
\<close>

definition isDigit :: "int \<Rightarrow> bool" where
  "isDigit c = (48 \<le> c \<and> c \<le> 57)"

definition isHexDigit :: "int \<Rightarrow> bool" where
  "isHexDigit c = (isDigit c \<or> (65 \<le> c \<and> c \<le> 70) \<or> (97 \<le> c \<and> c \<le> 102))"

definition isOctalDigit :: "int \<Rightarrow> bool" where
  "isOctalDigit c = (48 \<le> c \<and> c \<le> 55)"

definition isBinaryDigit :: "int \<Rightarrow> bool" where
  "isBinaryDigit c = (c = 48 \<or> c = 49)"

definition allOf :: "(int \<Rightarrow> bool) \<Rightarrow> jsstring \<Rightarrow> bool" where
  "allOf p s = (s \<noteq> [] \<and> list_all p s)"

definition exponentPart :: "jsstring \<Rightarrow> bool" where
  "exponentPart s =
     (case s of
        [] \<Rightarrow> True
      | e # r \<Rightarrow> (e = 101 \<or> e = 69) \<and>
          (case r of
             [] \<Rightarrow> False
           | g # r' \<Rightarrow> if g = 43 \<or> g = 45 then allOf isDigit r' else allOf isDigit r))"

definition unsignedDecimal :: "jsstring \<Rightarrow> bool" where
  "unsignedDecimal s =
     (s = str ''Infinity'' \<or>
      (let ip = takeWhile isDigit s; r = dropWhile isDigit s in
       case r of
         [] \<Rightarrow> ip \<noteq> []
       | d # r' \<Rightarrow>
           if d = 46
           then (ip \<noteq> [] \<or> takeWhile isDigit r' \<noteq> []) \<and> exponentPart (dropWhile isDigit r')
           else ip \<noteq> [] \<and> exponentPart r))"

definition decimalLiteral :: "jsstring \<Rightarrow> bool" where
  "decimalLiteral s =
     (case s of
        [] \<Rightarrow> False
      | g # r \<Rightarrow> if g = 43 \<or> g = 45 then unsignedDecimal r else unsignedDecimal s)"

definition nonDecimalLiteral :: "jsstring \<Rightarrow> bool" where
  "nonDecimalLiteral s =
     (case s of
        z # x # r \<Rightarrow>
          z = 48 \<and>
          (if x = 120 \<or> x = 88 then allOf isHexDigit r
           else if x = 111 \<or> x = 79 then allOf isOctalDigit r
           else if x = 98 \<or> x = 66 then allOf isBinaryDigit r
           else False)
      | _ \<Rightarrow> False)"

definition parsesAsNumber :: "jsstring \<Rightarrow> bool" where
  "parsesAsNumber s =
     (let t = trim s in t = [] \<or> nonDecimalLiteral t \<or> decimalLiteral t)"

text \<open>\<^verbatim>\<open>s.replace(/,/g, '')\<close>: every comma removed.\<close>

definition stripCommas :: "jsstring \<Rightarrow> jsstring" where
  "stripCommas s = filter (\<lambda>c. c \<noteq> 44) s"

text \<open>
  The decimal text of an integer, as \<^verbatim>\<open>toString\<close> of a number gives it: the digits of
  a number that is not negative, and a minus sign before those of its negation
  otherwise.
\<close>

function showNat :: "int \<Rightarrow> jsstring" where
  "showNat n = (if n < 10 then [48 + n] else showNat (n div 10) @ [48 + n mod 10])"
  by pat_completeness auto
termination
  by (relation "measure (\<lambda>n. nat n)") auto

declare showNat.simps [simp del]

definition showInt :: "int \<Rightarrow> jsstring" where
  "showInt i = (if i < 0 then 45 # showNat (- i) else showNat i)"

subsection \<open>Column codec\<close>

text \<open>
  \<^verbatim>\<open>columnLetterToNumber\<close>: \<^verbatim>\<open>result = result * 26 + letter.charCodeAt(i) - 64\<close> over
  the code units from left to right. Numbers of the runtime are modelled as integers.
\<close>

definition columnLetterToNumber :: "jsstring \<Rightarrow> int" where
  "columnLetterToNumber letter = foldl (\<lambda>result c. result * 26 + c - 64) 0 letter"




subsection \<open>Cells, rows and sheets\<close>

text \<open>
  The value types of the spreadsheet library (\<^verbatim>\<open>ExcelJS.ValueType\<close>) and the shapes a
  cell value takes (\<^verbatim>\<open>ExcelJS.CellValue\<close>): \<^verbatim>\<open>null\<close>, a number, a string, a boolean, a
  date, an error \<^verbatim>\<open>{error}\<close>, rich text \<^verbatim>\<open>{richText: [...]}\<close>, a hyperlink
  \<^verbatim>\<open>{text, hyperlink}\<close>, a formula \<^verbatim>\<open>{formula, result}\<close> and a shared formula
  \<^verbatim>\<open>{sharedFormula, result}\<close>; a result that is absent is \<open>None\<close>. A number is an
  integer here. A date stands for a \<^verbatim>\<open>Date\<close> object and is given by the text its
  \<^verbatim>\<open>toString()\<close> yields, which depends on the host's time zone.
\<close>

datatype valueType =
  TNull | TMerge | TNumber | TString | TDate | THyperlink | TFormula | TSharedString
  | TRichText | TBoolean | TError

type_synonym style = "(string \<times> string) list"

datatype richTextRun = Run (runFont: "style option") (runText: jsstring)

datatype cellValue =
    VNull
  | VNumber int
  | VString jsstring
  | VBoolean bool
  | VDate jsstring
  | VError jsstring
  | VRichText "richTextRun list"
  | VHyperlink jsstring jsstring
  | VFormula jsstring "cellValue option"
  | VSharedFormula jsstring "cellValue option"

text \<open>
  A cell: its type, its value and its five style attributes. The type of a cell of a
  merged range is \<open>TMerge\<close> and its value that of the range's master cell; otherwise
  the library derives the type from the value (\<open>typeOfValue\<close>).
\<close>

record cell =
  ctype :: valueType
  cvalue :: cellValue
  font :: "style option"
  fill :: "style option"
  alignment :: "style option"
  border :: "style option"
  numFmt :: "jsstring option"

definition emptyCell :: cell where
  "emptyCell = \<lparr>ctype = TNull, cvalue = VNull, font = None, fill = None, alignment = None,
                border = None, numFmt = None\<rparr>"

fun typeOfValue :: "cellValue \<Rightarrow> valueType" where
  "typeOfValue VNull = TNull"
| "typeOfValue (VNumber n) = TNumber"
| "typeOfValue (VString s) = TString"
| "typeOfValue (VBoolean b) = TBoolean"
| "typeOfValue (VDate d) = TDate"
| "typeOfValue (VError e) = TError"
| "typeOfValue (VRichText rs) = TRichText"
| "typeOfValue (VHyperlink t h) = THyperlink"
| "typeOfValue (VFormula f r) = TFormula"
| "typeOfValue (VSharedFormula f r) = TFormula"

text \<open>\<^verbatim>\<open>typeof v === 'number'\<close> and \<^verbatim>\<open>typeof v === 'object'\<close> on a value that is not null.\<close>

fun isNumberValue :: "cellValue \<Rightarrow> bool" where
  "isNumberValue (VNumber n) = True"
| "isNumberValue v = False"

fun isObjectValue :: "cellValue \<Rightarrow> bool" where
  "isObjectValue VNull = False"
| "isObjectValue (VNumber n) = False"
| "isObjectValue (VString s) = False"
| "isObjectValue (VBoolean b) = False"
| "isObjectValue v = True"

text \<open>
  \<^verbatim>\<open>v.toString()\<close> on a value that is not null: a plain object, which every
  structured value but a date is, gives \<^verbatim>\<open>[object Object]\<close>.
\<close>

fun jsToString :: "cellValue \<Rightarrow> jsstring" where
  "jsToString (VNumber n) = showInt n"
| "jsToString (VString s) = s"
| "jsToString (VBoolean b) = (if b then str ''true'' else str ''false'')"
| "jsToString (VDate d) = d"
| "jsToString v = str ''[object Object]''"

text \<open>\<^verbatim>\<open>cell.value?.toString()\<close>: \<open>None\<close> is \<^verbatim>\<open>undefined\<close>.\<close>

definition cellText :: "cell \<Rightarrow> jsstring option" where
  "cellText c = (if cvalue c = VNull then None else Some (jsToString (cvalue c)))"

text \<open>\<^verbatim>\<open>cell.result\<close>: the result of a formula value, \<open>None\<close> for \<^verbatim>\<open>undefined\<close>.\<close>

fun cellResult :: "cellValue \<Rightarrow> cellValue option" where
  "cellResult (VFormula f r) = r"
| "cellResult (VSharedFormula f r) = r"
| "cellResult v = None"

type_synonym row = "cell list"

definition getCell :: "row \<Rightarrow> int \<Rightarrow> cell" where
  "getCell r c = (if 1 \<le> c \<and> c \<le> int (length r) then r ! nat (c - 1) else emptyCell)"

text \<open>
  Storing a cell at a column extends the row as far as needed. Columns below 1 do not
  exist: the library rejects them, here a write to one changes nothing.
\<close>

definition putCell :: "row \<Rightarrow> int \<Rightarrow> cell \<Rightarrow> row" where
  "putCell r c x =
     (if c < 1 then r
      else (r @ replicate (nat c - length r) emptyCell)[nat (c - 1) := x])"

text \<open>
  \<^verbatim>\<open>row.eachCell\<close> visits the cells whose type is not Null, in column order;
  \<^verbatim>\<open>worksheet.eachRow\<close> visits the rows that have such a cell, in row order, with
  their numbers.
\<close>

definition eachCell :: "row \<Rightarrow> cell list" where
  "eachCell r = filter (\<lambda>c. ctype c \<noteq> TNull) r"

definition hasValues :: "row \<Rightarrow> bool" where
  "hasValues r = list_ex (\<lambda>c. ctype c \<noteq> TNull) r"

record sheet =
  sname :: jsstring
  srows :: "row list"

type_synonym workbook = "sheet list"

definition eachRow :: "sheet \<Rightarrow> (nat \<times> row) list" where
  "eachRow ws = filter (\<lambda>(n, r). hasValues r) (zip [1..<Suc (length (srows ws))] (srows ws))"

definition getRowOf :: "row list \<Rightarrow> nat \<Rightarrow> row" where
  "getRowOf rs n = (if 1 \<le> n \<and> n \<le> length rs then rs ! (n - 1) else [])"

definition putRowOf :: "row list \<Rightarrow> nat \<Rightarrow> row \<Rightarrow> row list" where
  "putRowOf rs n r =
     (if n < 1 then rs else (rs @ replicate (n - length rs) [])[n - 1 := r])"

definition getRow :: "sheet \<Rightarrow> nat \<Rightarrow> row" where
  "getRow ws n = getRowOf (srows ws) n"

text \<open>\<^verbatim>\<open>sheet.lastRow?.number || 0\<close>: the number of the last row, 0 without rows.\<close>

definition lastRowNumber :: "sheet \<Rightarrow> nat" where
  "lastRowNumber ws = length (srows ws)"

text \<open>Truthiness of a \<^verbatim>\<open>number | null\<close>: null and 0 are falsy.\<close>

fun truthy :: "nat option \<Rightarrow> bool" where
  "truthy None = False"
| "truthy (Some n) = (n \<noteq> 0)"

text \<open>A \<^verbatim>\<open>number | null\<close> used as a number: null converts to 0.\<close>

fun numberOf :: "nat option \<Rightarrow> nat" where
  "numberOf None = 0"
| "numberOf (Some n) = n"

subsection \<open>Row classifiers\<close>

text \<open>
  \<^verbatim>\<open>findTotalRow\<close>. The callback of \<^verbatim>\<open>eachRow\<close> returns at once when \<^verbatim>\<open>totalRow\<close> is
  set; otherwise \<^verbatim>\<open>foundTotal\<close> is raised by any visited cell whose text, trimmed and
  in upper case, is \<^verbatim>\<open>TOTAL\<close>.
\<close>

definition isTotalCell :: "cell \<Rightarrow> bool" where
  "isTotalCell c =
     (case cellText c of
        None \<Rightarrow> False
      | Some t \<Rightarrow> toUpperCase (trim t) = str ''TOTAL'')"

definition findTotalRow :: "sheet \<Rightarrow> nat option" where
  "findTotalRow ws =
     foldl (\<lambda>totalRow (rowNumber, r).
              if truthy totalRow then totalRow
              else (let foundTotal =
                          foldl (\<lambda>found c. if isTotalCell c then True else found) False
                            (eachCell r)
                    in if foundTotal then Some rowNumber else totalRow))
       None (eachRow ws)"

text \<open>
  \<^verbatim>\<open>findSignatureRow\<close>. The six keywords, as code units: the first, second and fourth
  are the Vietnamese labels of the source, the sixth the first two words of the fourth.
\<close>

definition signatureKeywords :: "jsstring list" where
  "signatureKeywords =
     [[110, 103, 432, 7901, 105, 32, 108, 7853, 112, 32, 112, 104, 105, 7871, 117],
      [110, 103, 432, 7901, 105, 32, 110, 104, 7853, 110],
      str ''signature of sender'',
      [99, 104, 7919, 32, 107, 253, 32, 110, 103, 432, 7901, 105, 32, 103, 7917, 105],
      str ''signature'',
      [99, 104, 7919, 32, 107, 253]]"

fun keywordLoop :: "jsstring \<Rightarrow> nat \<Rightarrow> nat option \<Rightarrow> jsstring list \<Rightarrow> nat option" where
  "keywordLoop cellValue rowNumber signatureRow [] = signatureRow"
| "keywordLoop cellValue rowNumber signatureRow (keyword # keywords) =
     (if jsIncludes cellValue keyword \<and> \<not> truthy signatureRow then Some rowNumber
      else keywordLoop cellValue rowNumber signatureRow keywords)"

definition signatureCellStep :: "nat \<Rightarrow> nat option \<Rightarrow> cell \<Rightarrow> nat option" where
  "signatureCellStep rowNumber signatureRow c =
     (case cellText c of
        None \<Rightarrow> signatureRow
      | Some t \<Rightarrow>
          (let cellValue = toLowerCase (trim t)
           in if cellValue = [] then signatureRow
              else keywordLoop cellValue rowNumber signatureRow signatureKeywords))"

definition findSignatureRow :: "sheet \<Rightarrow> nat option" where
  "findSignatureRow ws =
     foldl (\<lambda>signatureRow (rowNumber, r).
              if truthy signatureRow then signatureRow
              else foldl (signatureCellStep rowNumber) signatureRow (eachCell r))
       None (eachRow ws)"

text \<open>
  \<^verbatim>\<open>isSubtotalRow\<close>. The loop over the window keeps the three counters; the ratio is a
  quotient of the two counts compared with seven tenths.
\<close>

definition subtotalStep :: "row \<Rightarrow> nat \<times> nat \<times> nat \<Rightarrow> int \<Rightarrow> nat \<times> nat \<times> nat" where
  "subtotalStep r counts colIndex =
     (case counts of (emptyCellCount, numericCellCount, textCellCount) \<Rightarrow>
        (let cellValue = cvalue (getCell r colIndex)
         in if cellValue = VNull \<or> cellValue = VString [] then
              (emptyCellCount + 1, numericCellCount, textCellCount)
            else if isNumberValue cellValue then
              (emptyCellCount, numericCellCount + 1, textCellCount)
            else (let strValue = trim (jsToString cellValue)
                  in if strValue = [] then
                       (emptyCellCount + 1, numericCellCount, textCellCount)
                     else if parsesAsNumber (stripCommas strValue) then
                       (emptyCellCount, numericCellCount + 1, textCellCount)
                     else (emptyCellCount, numericCellCount, textCellCount + 1))))"

definition isSubtotalRow :: "row \<Rightarrow> int \<Rightarrow> int \<Rightarrow> bool" where
  "isSubtotalRow r startCol endCol =
     (let totalCells = endCol - startCol + 1
      in case foldl (subtotalStep r) (0, 0, 0) [startCol..endCol] of
           (emptyCellCount, numericCellCount, textCellCount) \<Rightarrow>
             (let emptyRatio = (of_nat emptyCellCount :: rat) / of_int totalCells
              in emptyRatio \<ge> 7 / 10 \<and> numericCellCount \<ge> 1 \<and> numericCellCount \<le> 3
                 \<and> textCellCount = 0))"

subsection \<open>Cell value extractor and row copier\<close>

text \<open>
  \<^verbatim>\<open>extractSafeCellValue\<close>, branch by branch: the empty cell; the formula cell with
  \<^verbatim>\<open>cell.result ?? null\<close>; the rich-text cell; any other object value, with the tests
  on \<^verbatim>\<open>result\<close>, \<^verbatim>\<open>text\<close>, \<^verbatim>\<open>richText\<close> and \<^verbatim>\<open>formula\<close> in the source's order; the
  simple value. Joining the runs of a rich text concatenates their texts.
\<close>

definition joinRuns :: "richTextRun list \<Rightarrow> cellValue" where
  "joinRuns rs = VString (concat (map runText rs))"

fun extractObject :: "cellValue \<Rightarrow> cellValue" where
  "extractObject (VFormula f (Some r)) = r"
| "extractObject (VSharedFormula f (Some r)) = r"
| "extractObject (VHyperlink t h) = VString t"
| "extractObject (VRichText rs) = joinRuns rs"
| "extractObject (VFormula f None) = VNull"
| "extractObject (VSharedFormula f None) = VNull"
| "extractObject v = VNull"

definition extractSafeCellValue :: "cell \<Rightarrow> cellValue" where
  "extractSafeCellValue c =
     (if cvalue c = VNull then VNull
      else if ctype c = TFormula then
        (case cellResult (cvalue c) of Some r \<Rightarrow> r | None \<Rightarrow> VNull)
      else if ctype c = TRichText then
        (case cvalue c of VRichText rs \<Rightarrow> joinRuns rs | _ \<Rightarrow> VNull)
      else if isObjectValue (cvalue c) then extractObject (cvalue c)
      else cvalue c)"

text \<open>Assigning \<^verbatim>\<open>cell.value\<close> sets the value and, with it, the type of the cell.\<close>

definition setValue :: "cell \<Rightarrow> cellValue \<Rightarrow> cell" where
  "setValue c v = c\<lparr>cvalue := v, ctype := typeOfValue v\<rparr>"

text \<open>
  The body of the loop of \<^verbatim>\<open>copyRowWithFormatting\<close> on one pair of cells: the value
  when it is not null, then each style attribute that is truthy in the source cell (an
  object always is, a number format when it is not the empty string).
\<close>

definition copyCell :: "cell \<Rightarrow> cell \<Rightarrow> cell" where
  "copyCell sourceCell targetCell =
     (let cellValue = extractSafeCellValue sourceCell;
          t1 = (if cellValue \<noteq> VNull then setValue targetCell cellValue else targetCell);
          t2 = (if font sourceCell \<noteq> None then t1\<lparr>font := font sourceCell\<rparr> else t1);
          t3 = (if fill sourceCell \<noteq> None then t2\<lparr>fill := fill sourceCell\<rparr> else t2);
          t4 = (if alignment sourceCell \<noteq> None
                then t3\<lparr>alignment := alignment sourceCell\<rparr> else t3);
          t5 = (if border sourceCell \<noteq> None then t4\<lparr>border := border sourceCell\<rparr> else t4)
      in if numFmt sourceCell \<noteq> None \<and> numFmt sourceCell \<noteq> Some []
         then t5\<lparr>numFmt := numFmt sourceCell\<rparr> else t5)"

definition copyRowWithFormatting :: "row \<Rightarrow> row \<Rightarrow> int \<Rightarrow> int \<Rightarrow> row" where
  "copyRowWithFormatting sourceRow targetRow startCol endCol =
     foldl (\<lambda>target colIndex.
              putCell target colIndex
                (copyCell (getCell sourceRow colIndex) (getCell target colIndex)))
       targetRow [startCol..endCol]"

subsection \<open>Merge orchestrator\<close>

record MergeConfig =
  includeTotal :: bool
  startRow :: nat
  startColumn :: jsstring
  endColumn :: jsstring
  includeSignature :: bool

text \<open>
  The variables of \<^verbatim>\<open>mergeExcelFiles\<close> that change while the files are processed: the
  cursor, the rows of the output sheet, the first-sheet flag and the signature buffer
  of pairs of a source row and its sheet.
\<close>

record mergeState =
  targetRowNum :: nat
  worksheet :: "row list"
  isFirstSheet :: bool
  signatureRowsToAdd :: "(row \<times> sheet) list"

datatype error = TypeError

text \<open>
  The four lines that write one row: take the output row at the cursor, copy the source
  row into it over the window, commit, advance the cursor.
\<close>

definition copyToTarget :: "int \<Rightarrow> int \<Rightarrow> mergeState \<Rightarrow> row \<Rightarrow> mergeState" where
  "copyToTarget startColNum endColNum st sourceRow =
     (let targetRow = getRowOf (worksheet st) (targetRowNum st)
      in st\<lparr>worksheet :=
               putRowOf (worksheet st) (targetRowNum st)
                 (copyRowWithFormatting sourceRow targetRow startColNum endColNum),
             targetRowNum := targetRowNum st + 1\<rparr>)"

text \<open>
  The loop over the data rows, on the row numbers still to visit. \<^verbatim>\<open>continue\<close> goes on
  with the rest, \<^verbatim>\<open>break\<close> returns the state.
\<close>

fun dataRowLoop ::
  "MergeConfig \<Rightarrow> int \<Rightarrow> int \<Rightarrow> sheet \<Rightarrow> nat option \<Rightarrow> nat option \<Rightarrow> nat \<Rightarrow> nat list
   \<Rightarrow> mergeState \<Rightarrow> mergeState" where
  "dataRowLoop config startColNum endColNum sourceSheet totalRowNum signatureRowNum lastRow
     [] st = st"
| "dataRowLoop config startColNum endColNum sourceSheet totalRowNum signatureRowNum lastRow
     (rowNum # rowNums) st =
     (let sourceRow = getRow sourceSheet rowNum
      in if truthy totalRowNum \<and> Some rowNum = totalRowNum then
           dataRowLoop config startColNum endColNum sourceSheet totalRowNum signatureRowNum
             lastRow rowNums
             (if includeTotal config then copyToTarget startColNum endColNum st sourceRow
              else st)
         else if truthy signatureRowNum \<and> rowNum \<ge> numberOf signatureRowNum then
           (if includeSignature config \<and> length (signatureRowsToAdd st) = 0 then
              st\<lparr>signatureRowsToAdd :=
                    signatureRowsToAdd st @
                    map (\<lambda>sigRowNum. (getRow sourceSheet sigRowNum, sourceSheet))
                      [numberOf signatureRowNum..<Suc lastRow]\<rparr>
            else st)
         else if \<not> includeTotal config \<and> isSubtotalRow sourceRow startColNum endColNum then
           dataRowLoop config startColNum endColNum sourceSheet totalRowNum signatureRowNum
             lastRow rowNums st
         else
           dataRowLoop config startColNum endColNum sourceSheet totalRowNum signatureRowNum
             lastRow rowNums (copyToTarget startColNum endColNum st sourceRow))"

text \<open>
  The callback of \<^verbatim>\<open>sourceWorkbook.worksheets.forEach\<close>: the special rows are found,
  the first sheet of all gives its rows before \<^verbatim>\<open>startRowNum\<close> as header, the data rows
  from \<^verbatim>\<open>startRowNum\<close> to the last row are walked, the flag is lowered. A first sheet
  with fewer than \<^verbatim>\<open>startRowNum - 1\<close> rows has none at or after \<^verbatim>\<open>startRowNum\<close> either way.
\<close>

definition processSheet ::
  "MergeConfig \<Rightarrow> int \<Rightarrow> int \<Rightarrow> mergeState \<Rightarrow> sheet \<Rightarrow> mergeState" where
  "processSheet config startColNum endColNum st sourceSheet =
     (let startRowNum = startRow config;
          totalRowNum = findTotalRow sourceSheet;
          signatureRowNum = findSignatureRow sourceSheet;
          st1 = (if isFirstSheet st
                 then foldl (\<lambda>s rowNum.
                               copyToTarget startColNum endColNum s (getRow sourceSheet rowNum))
                        st [1..<startRowNum]
                 else st);
          lastRow = lastRowNumber sourceSheet;
          st2 = dataRowLoop config startColNum endColNum sourceSheet totalRowNum
                  signatureRowNum lastRow [startRowNum..<Suc lastRow] st1
      in st2\<lparr>isFirstSheet := False\<rparr>)"

definition processFiles ::
  "MergeConfig \<Rightarrow> int \<Rightarrow> int \<Rightarrow> mergeState \<Rightarrow> workbook list \<Rightarrow> mergeState" where
  "processFiles config startColNum endColNum st files =
     foldl (\<lambda>s sourceWorkbook. foldl (processSheet config startColNum endColNum) s sourceWorkbook)
       st files"

text \<open>The signature section, written once after all files.\<close>

definition addSignature :: "int \<Rightarrow> int \<Rightarrow> mergeState \<Rightarrow> mergeState" where
  "addSignature startColNum endColNum st =
     (if length (signatureRowsToAdd st) > 0
      then foldl (\<lambda>s entry. copyToTarget startColNum endColNum s (fst entry)) st
             (signatureRowsToAdd st)
      else st)"

definition initialState :: mergeState where
  "initialState =
     \<lparr>targetRowNum = 1, worksheet = [], isFirstSheet = True, signatureRowsToAdd = []\<rparr>"

text \<open>
  \<^verbatim>\<open>mergeExcelFiles\<close> on the parsed files. \<^verbatim>\<open>files[0]\<close> of an empty list is undefined and
  the call on it raises; so does copying the column widths from the first sheet of a
  first workbook without sheets, when the window has a column. The result is the first
  workbook with the sheet \<^verbatim>\<open>Consolidated\<close> added after its own sheets.
\<close>

definition mergeExcelFiles :: "workbook list \<Rightarrow> MergeConfig \<Rightarrow> error + workbook" where
  "mergeExcelFiles files config =
     (case files of
        [] \<Rightarrow> Inl TypeError
      | baseWorkbook # _ \<Rightarrow>
          (let startColNum = columnLetterToNumber (startColumn config);
               endColNum = columnLetterToNumber (endColumn config)
           in if baseWorkbook = [] \<and> startColNum \<le> endColNum then Inl TypeError
              else (let st = processFiles config startColNum endColNum initialState files;
                        st' = addSignature startColNum endColNum st
                    in Inr (baseWorkbook @
                            [\<lparr>sname = str ''Consolidated'', srows = worksheet st'\<rparr>]))))"

text \<open>The rows of the sheet \<^verbatim>\<open>Consolidated\<close> of a result.\<close>

definition consolidatedRows :: "error + workbook \<Rightarrow> row list" where
  "consolidatedRows res = (case res of Inl e \<Rightarrow> [] | Inr wb \<Rightarrow> srows (last wb))"

subsection \<open>Notions of the specification\<close>

text \<open>
  A row of a sheet contains a total cell, or a signature cell, when one of its cells
  that has a value is one: the text of the cell, trimmed and in upper case, is
  \<^verbatim>\<open>TOTAL\<close>; or the text, trimmed and in lower case, includes a signature keyword.
\<close>

definition rowHasTotal :: "row \<Rightarrow> bool" where
  "rowHasTotal r = list_ex isTotalCell (eachCell r)"

definition containsTotal :: "sheet \<Rightarrow> nat \<Rightarrow> bool" where
  "containsTotal ws n = list_ex (\<lambda>c. ctype c \<noteq> TNull \<and> isTotalCell c) (getRow ws n)"

definition isSignatureCell :: "cell \<Rightarrow> bool" where
  "isSignatureCell c =
     (case cellText c of
        None \<Rightarrow> False
      | Some t \<Rightarrow> list_ex (jsIncludes (toLowerCase (trim t))) signatureKeywords)"

definition rowHasSignature :: "row \<Rightarrow> bool" where
  "rowHasSignature r = list_ex isSignatureCell (eachCell r)"

definition containsSignature :: "sheet \<Rightarrow> nat \<Rightarrow> bool" where
  "containsSignature ws n =
     list_ex (\<lambda>c. ctype c \<noteq> TNull \<and> isSignatureCell c) (getRow ws n)"

text \<open>
  The classes of a cell in the subtotal test, in the words of the specification: empty
  (no value, or blank text), numeric (a number, or text that parses as a number once
  its commas are removed), textual (anything else); and the number of cells of a class
  in the window of a row.
\<close>

datatype cellKind = EmptyKind | NumericKind | TextKind

definition classifyCell :: "cell \<Rightarrow> cellKind" where
  "classifyCell c =
     (if cvalue c = VNull then EmptyKind
      else if isNumberValue (cvalue c) then NumericKind
      else (let t = trim (jsToString (cvalue c))
            in if t = [] then EmptyKind
               else if parsesAsNumber (stripCommas t) then NumericKind
               else TextKind))"

definition countKind :: "cellKind \<Rightarrow> row \<Rightarrow> int \<Rightarrow> int \<Rightarrow> nat" where
  "countKind k r startCol endCol =
     length (filter (\<lambda>c. classifyCell (getCell r c) = k) [startCol..endCol])"

text \<open>
  The output cursor stands just past the rows written so far. A source row copied into
  a fresh output row over the window.
\<close>

definition cursorAtEnd :: "mergeState \<Rightarrow> bool" where
  "cursorAtEnd st = (targetRowNum st = Suc (length (worksheet st)))"

definition freshCopy :: "int \<Rightarrow> int \<Rightarrow> row \<Rightarrow> row" where
  "freshCopy startColNum endColNum sourceRow =
     copyRowWithFormatting sourceRow [] startColNum endColNum"

text \<open>
  The row walk of a sheet, told by row numbers: the walk stops at the first row at or
  after the signature row that is not the total row; a row walked is kept when it is the
  total row and totals are included, or when it is another row that is not dropped as a
  subtotal row. The walk captures the signature section when it stops inside the
  sheet; the section runs from the signature row to the last row. The header rows are
  those before \<^verbatim>\<open>startRow\<close>.
\<close>

definition walkStops :: "sheet \<Rightarrow> nat \<Rightarrow> bool" where
  "walkStops sh r =
     (findTotalRow sh \<noteq> Some r \<and>
      (case findSignatureRow sh of None \<Rightarrow> False | Some s \<Rightarrow> s \<le> r))"

definition rowKept :: "MergeConfig \<Rightarrow> int \<Rightarrow> int \<Rightarrow> sheet \<Rightarrow> nat \<Rightarrow> bool" where
  "rowKept config startColNum endColNum sh r =
     (if findTotalRow sh = Some r then includeTotal config
      else includeTotal config \<or> \<not> isSubtotalRow (getRow sh r) startColNum endColNum)"

definition dataRowsCopied :: "MergeConfig \<Rightarrow> int \<Rightarrow> int \<Rightarrow> sheet \<Rightarrow> nat list" where
  "dataRowsCopied config startColNum endColNum sh =
     filter (rowKept config startColNum endColNum sh)
       (takeWhile (\<lambda>r. \<not> walkStops sh r) [startRow config..<Suc (lastRowNumber sh)])"

definition capturesSignature :: "MergeConfig \<Rightarrow> sheet \<Rightarrow> bool" where
  "capturesSignature config sh =
     list_ex (walkStops sh) [startRow config..<Suc (lastRowNumber sh)]"

definition signatureSection :: "sheet \<Rightarrow> row list" where
  "signatureSection sh =
     map (getRow sh) [numberOf (findSignatureRow sh)..<Suc (lastRowNumber sh)]"

definition headerRows :: "MergeConfig \<Rightarrow> sheet \<Rightarrow> row list" where
  "headerRows config sh = map (getRow sh) [1..<startRow config]"

text \<open>
  The three parts of the output sheet: the copies of the header rows of the first sheet
  of all, the copies of the rows kept of a sheet, and the copies of the signature
  section of the first sheet whose walk captures one.
\<close>

definition dataCopies :: "MergeConfig \<Rightarrow> int \<Rightarrow> int \<Rightarrow> sheet \<Rightarrow> row list" where
  "dataCopies config startColNum endColNum sh =
     map (\<lambda>r. freshCopy startColNum endColNum (getRow sh r))
       (dataRowsCopied config startColNum endColNum sh)"

definition headerCopies :: "MergeConfig \<Rightarrow> int \<Rightarrow> int \<Rightarrow> sheet list \<Rightarrow> row list" where
  "headerCopies config startColNum endColNum shs =
     (case shs of
        [] \<Rightarrow> []
      | sh # _ \<Rightarrow> map (freshCopy startColNum endColNum) (headerRows config sh))"

definition signatureBlock :: "MergeConfig \<Rightarrow> int \<Rightarrow> int \<Rightarrow> sheet list \<Rightarrow> row list" where
  "signatureBlock config startColNum endColNum shs =
     (if includeSignature config then
        (case find (capturesSignature config) shs of
           None \<Rightarrow> []
         | Some sh \<Rightarrow> map (freshCopy startColNum endColNum) (signatureSection sh))
      else [])"

text \<open>
  A cell as the library builds it: its type is that of its value, or it is a cell of a
  merged range.
\<close>

definition wellTyped :: "cell \<Rightarrow> bool" where
  "wellTyped c = (ctype c = typeOfValue (cvalue c) \<or> ctype c = TMerge)"

subsection \<open>Example data\<close>

definition textCell :: "string \<Rightarrow> cell" where
  "textCell s = emptyCell\<lparr>ctype := TString, cvalue := VString (str s)\<rparr>"

definition numberCell :: "int \<Rightarrow> cell" where
  "numberCell n = emptyCell\<lparr>ctype := TNumber, cvalue := VNumber n\<rparr>"

definition invoiceSheet :: sheet where
  "invoiceSheet =
     \<lparr>sname = str ''Invoice'',
      srows = [[textCell ''Name'', textCell ''Qty''],
               [textCell ''bolt'', numberCell 4],
               [emptyCell, textCell '' total '', numberCell 4],
               [textCell ''Signature of sender'']]\<rparr>"

definition sparseRow :: row where
  "sparseRow =
     [emptyCell, emptyCell, emptyCell, textCell ''424,595'', emptyCell, emptyCell,
      emptyCell, numberCell 12, emptyCell, emptyCell]"

definition labelledRow :: row where
  "labelledRow =
     [textCell ''bolt'', emptyCell, emptyCell, textCell ''M8'', emptyCell, emptyCell,
      emptyCell, numberCell 12, emptyCell, emptyCell]"

definition totalLeftOfWindow :: sheet where
  "totalLeftOfWindow = \<lparr>sname = str ''S'', srows = [[textCell ''TOTAL'', textCell ''x'', textCell ''y'']]\<rparr>"

definition signatureLeftOfWindow :: sheet where
  "signatureLeftOfWindow =
     \<lparr>sname = str ''S'', srows = [[textCell ''Signature'', textCell ''x'', textCell ''y'']]\<rparr>"

definition plainLeftOfWindow :: sheet where
  "plainLeftOfWindow = \<lparr>sname = str ''S'', srows = [[textCell ''z'', textCell ''x'', textCell ''y'']]\<rparr>"

text \<open>
  Three one-sheet workbooks with the table header in row 1, each with a signature row;
  the third sheet bears the name of the output sheet. The window of the configuration
  is B to C.
\<close>

definition mergeConfig :: MergeConfig where
  "mergeConfig =
     \<lparr>includeTotal = True, startRow = 2, startColumn = str ''B'', endColumn = str ''C'',
      includeSignature = True\<rparr>"

definition sheetA :: sheet where
  "sheetA =
     \<lparr>sname = str ''January'',
      srows = [[textCell ''No'', textCell ''Name'', textCell ''Qty''],
               [numberCell 1, textCell ''bolt'', numberCell 4],
               [emptyCell, textCell ''TOTAL'', numberCell 4],
               [emptyCell, textCell ''Signature of sender''],
               [emptyCell, textCell ''Mr A'']]\<rparr>"

definition sheetB :: sheet where
  "sheetB =
     \<lparr>sname = str ''February'',
      srows = [[textCell ''No'', textCell ''Name'', textCell ''Qty''],
               [numberCell 2, textCell ''nut'', numberCell 7],
               [emptyCell, textCell ''Total'', numberCell 7],
               [emptyCell, textCell ''Signature'']]\<rparr>"

definition sheetC :: sheet where
  "sheetC =
     \<lparr>sname = str ''Consolidated'',
      srows = [[textCell ''No'', textCell ''Name'', textCell ''Qty''],
               [numberCell 3, textCell ''washer'', numberCell 9],
               [emptyCell, textCell ''Signature of receiver'']]\<rparr>"

definition errorCell :: cell where
  "errorCell = emptyCell\<lparr>ctype := TError, cvalue := VError (str ''#N/A'')\<rparr>"


section \<open>Properties\<close>

subsection \<open>Column codec\<close>




subsection \<open>Row classifiers\<close>

lemma found_fold:
  "foldl (\<lambda>found c. if P c then True else found) b cs = (b \<or> list_ex P cs)"
  by (induction cs arbitrary: b) auto

lemma first_match_fold:
  "(\<forall>x \<in> set xs. fst x \<noteq> 0) \<Longrightarrow> acc = None \<or> truthy acc \<Longrightarrow>
   foldl (\<lambda>acc x. if truthy acc then acc else if Q x then Some (fst x) else acc) acc xs
   = (if truthy acc then acc else map_option fst (find Q xs))"
proof (induction xs arbitrary: acc)
  case Nil
  then show ?case by auto
next
  case (Cons x xs)
  show ?case
  proof (cases "truthy acc")
    case True
    then show ?thesis using Cons.IH [of acc] Cons.prems by simp
  next
    case False
    with Cons.prems have a: "acc = None" by simp
    show ?thesis
    proof (cases "Q x")
      case True
      have "truthy (Some (fst x))" using Cons.prems by simp
      then show ?thesis using Cons.IH [of "Some (fst x)"] Cons.prems a True by simp
    next
      case False
      then show ?thesis using Cons.IH [of None] Cons.prems a by simp
    qed
  qed
qed

lemma eachRow_numbers: "x \<in> set (eachRow ws) \<Longrightarrow> fst x \<noteq> 0"
  by (auto simp: eachRow_def dest!: set_zip_leftD)

lemma find_filter: "find P (filter H xs) = find (\<lambda>x. H x \<and> P x) xs"
  by (induction xs) auto

lemma rowHasTotal_hasValues: "rowHasTotal r \<Longrightarrow> hasValues r"
  by (auto simp: rowHasTotal_def hasValues_def eachCell_def list_ex_iff)

lemma findTotalRow_find:
  "findTotalRow ws =
   map_option fst (find (\<lambda>x. rowHasTotal (snd x)) (zip [1..<Suc (length (srows ws))] (srows ws)))"
proof -
  have s: "(\<lambda>totalRow (rowNumber, r).
              if truthy totalRow then totalRow
              else (let foundTotal =
                          foldl (\<lambda>found c. if isTotalCell c then True else found) False
                            (eachCell r)
                    in if foundTotal then Some rowNumber else totalRow))
         = (\<lambda>acc x. if truthy acc then acc else if rowHasTotal (snd x) then Some (fst x) else acc)"
    by (auto simp: fun_eq_iff found_fold rowHasTotal_def)
  have "findTotalRow ws = map_option fst (find (\<lambda>x. rowHasTotal (snd x)) (eachRow ws))"
    unfolding findTotalRow_def s
    using first_match_fold [of "eachRow ws" None "\<lambda>x. rowHasTotal (snd x)"] eachRow_numbers
    by auto
  also have "find (\<lambda>x. rowHasTotal (snd x)) (eachRow ws)
     = find (\<lambda>x. rowHasTotal (snd x)) (zip [1..<Suc (length (srows ws))] (srows ws))"
    unfolding eachRow_def find_filter
    by (rule arg_cong [where f = "\<lambda>p. find p _"]) (auto simp: fun_eq_iff rowHasTotal_hasValues)
  finally show ?thesis .
qed

lemma zip_numbered_nth:
  "i < length rs \<Longrightarrow> zip [1..<Suc (length rs)] rs ! i = (Suc i, rs ! i)"
  by (simp del: upt_Suc)

lemma zip_numbered_length: "length (zip [1..<Suc (length rs)] rs) = length rs"
  by (simp del: upt_Suc)

lemma find_indexed_Some:
  "map_option fst (find (\<lambda>x. Q (snd x)) (zip [1..<Suc (length rs)] rs)) = Some n
   \<longleftrightarrow> (1 \<le> n \<and> n \<le> length rs \<and> Q (rs ! (n - 1))
        \<and> (\<forall>m. 1 \<le> m \<and> m < n \<longrightarrow> \<not> Q (rs ! (m - 1))))"
  (is "?L \<longleftrightarrow> ?R")
proof
  let ?xs = "zip [1..<Suc (length rs)] rs"
  assume ?L
  then obtain x where f: "find (\<lambda>x. Q (snd x)) ?xs = Some x"
    and n: "fst x = n" by auto
  from f obtain i where i: "i < length ?xs" "Q (snd (?xs ! i))"
    "x = ?xs ! i" "\<forall>j<i. \<not> Q (snd (?xs ! j))"
    unfolding find_Some_iff by blast
  have il: "i < length rs" using i(1) zip_numbered_length [of rs] by simp
  have xi: "x = (Suc i, rs ! i)" using i(3) zip_numbered_nth [OF il] by simp
  have ni: "n = Suc i" using n xi by simp
  have "\<not> Q (rs ! (m - 1))" if m: "1 \<le> m \<and> m < n" for m
  proof -
    have lt: "m - 1 < i" using m ni by auto
    then have "\<not> Q (snd (?xs ! (m - 1)))" using i(4) by blast
    moreover have "m - 1 < length rs" using lt il by simp
    ultimately show ?thesis using zip_numbered_nth [of "m - 1" rs] by simp
  qed
  moreover have "Q (rs ! (n - 1))" using i(2) zip_numbered_nth [OF il] ni by simp
  ultimately show ?R using ni il by auto
next
  let ?xs = "zip [1..<Suc (length rs)] rs"
  assume r: ?R
  then have nl: "n - 1 < length rs" by auto
  have "find (\<lambda>x. Q (snd x)) ?xs = Some (n, rs ! (n - 1))"
    unfolding find_Some_iff
  proof (intro exI [of _ "n - 1"] conjI allI impI)
    show "n - 1 < length ?xs" using nl zip_numbered_length [of rs] by simp
    show "Q (snd (?xs ! (n - 1)))" using r zip_numbered_nth [OF nl] by simp
    show "(n, rs ! (n - 1)) = ?xs ! (n - 1)" using r zip_numbered_nth [OF nl] by simp
    fix j assume j: "j < n - 1"
    then have "j < length rs" using nl by simp
    moreover have "\<not> Q (rs ! (Suc j - 1))" using r j by (auto dest: spec [of _ "Suc j"])
    ultimately show "\<not> Q (snd (?xs ! j))" using zip_numbered_nth [of j rs] by simp
  qed
  then show ?L by simp
qed

lemma find_indexed_None:
  "map_option fst (find (\<lambda>x. Q (snd x)) (zip [1..<Suc (length rs)] rs)) = None
   \<longleftrightarrow> (\<forall>m. 1 \<le> m \<and> m \<le> length rs \<longrightarrow> \<not> Q (rs ! (m - 1)))"
  (is "?L \<longleftrightarrow> ?R")
proof
  let ?xs = "zip [1..<Suc (length rs)] rs"
  assume ?L
  then have a: "\<forall>x \<in> set ?xs. \<not> Q (snd x)" by (auto simp add: find_None_iff simp del: upt_Suc)
  show ?R
  proof (intro allI impI)
    fix m assume m: "1 \<le> m \<and> m \<le> length rs"
    then have l: "m - 1 < length rs" by auto
    then have "?xs ! (m - 1) \<in> set ?xs" using zip_numbered_length [of rs] nth_mem by metis
    with a have "\<not> Q (snd (?xs ! (m - 1)))" by blast
    then show "\<not> Q (rs ! (m - 1))" using zip_numbered_nth [OF l] by simp
  qed
next
  let ?xs = "zip [1..<Suc (length rs)] rs"
  assume r: ?R
  have "\<not> Q (snd x)" if "x \<in> set ?xs" for x
  proof -
    from that obtain i where i: "i < length ?xs" "x = ?xs ! i" by (metis in_set_conv_nth)
    then have il: "i < length rs" using zip_numbered_length [of rs] by simp
    have "\<not> Q (rs ! (Suc i - 1))" using r il by (auto dest: spec [of _ "Suc i"])
    then show ?thesis using i(2) zip_numbered_nth [OF il] by simp
  qed
  then show ?L by (auto simp add: find_None_iff simp del: upt_Suc)
qed

lemma containsTotal_iff:
  "containsTotal ws n \<longleftrightarrow> 1 \<le> n \<and> n \<le> length (srows ws) \<and> rowHasTotal (srows ws ! (n - 1))"
  by (auto simp: containsTotal_def getRow_def getRowOf_def rowHasTotal_def eachCell_def list_ex_iff)

lemma findTotalRow_Some_iff:
  "findTotalRow ws = Some n \<longleftrightarrow> containsTotal ws n \<and> (\<forall>m<n. \<not> containsTotal ws m)"
  unfolding findTotalRow_find find_indexed_Some containsTotal_iff
  by auto

lemma findTotalRow_None_iff:
  "findTotalRow ws = None \<longleftrightarrow> (\<forall>m. \<not> containsTotal ws m)"
  unfolding findTotalRow_find find_indexed_None containsTotal_iff
  by auto

lemma keywordLoop_eq:
  "keywordLoop v n acc ks = (if \<not> truthy acc \<and> list_ex (jsIncludes v) ks then Some n else acc)"
  by (induction ks) auto

lemma no_keyword_in_empty: "\<not> list_ex (jsIncludes []) signatureKeywords"
  by (simp add: signatureKeywords_def str_def)

lemma signatureCellStep_eq:
  "signatureCellStep n acc c = (if \<not> truthy acc \<and> isSignatureCell c then Some n else acc)"
  using no_keyword_in_empty
  by (auto simp: signatureCellStep_def isSignatureCell_def keywordLoop_eq Let_def
           split: option.splits)

lemma signature_cells_fold:
  "foldl (signatureCellStep n) acc cs
   = (if \<not> truthy acc \<and> list_ex isSignatureCell cs then Some n else acc)"
proof (induction cs arbitrary: acc)
  case Nil
  then show ?case by simp
next
  case (Cons c cs)
  have "foldl (signatureCellStep n) acc (c # cs)
        = foldl (signatureCellStep n) (signatureCellStep n acc c) cs"
    by simp
  also have "\<dots> = (if \<not> truthy (signatureCellStep n acc c) \<and> list_ex isSignatureCell cs
                     then Some n else signatureCellStep n acc c)"
    by (rule Cons.IH)
  also have "\<dots> = (if \<not> truthy acc \<and> list_ex isSignatureCell (c # cs) then Some n else acc)"
    by (cases "truthy (Some n)") (auto simp: signatureCellStep_eq)
  finally show ?case .
qed

lemma rowHasSignature_hasValues: "rowHasSignature r \<Longrightarrow> hasValues r"
  by (auto simp: rowHasSignature_def hasValues_def eachCell_def list_ex_iff)

lemma findSignatureRow_find:
  "findSignatureRow ws =
   map_option fst
     (find (\<lambda>x. rowHasSignature (snd x)) (zip [1..<Suc (length (srows ws))] (srows ws)))"
proof -
  have s: "(\<lambda>signatureRow (rowNumber, r).
              if truthy signatureRow then signatureRow
              else foldl (signatureCellStep rowNumber) signatureRow (eachCell r))
         = (\<lambda>acc x. if truthy acc then acc
                     else if rowHasSignature (snd x) then Some (fst x) else acc)"
    by (auto simp: fun_eq_iff signature_cells_fold rowHasSignature_def)
  have "findSignatureRow ws
        = map_option fst (find (\<lambda>x. rowHasSignature (snd x)) (eachRow ws))"
    unfolding findSignatureRow_def s
    using first_match_fold [of "eachRow ws" None "\<lambda>x. rowHasSignature (snd x)"]
      eachRow_numbers
    by auto
  also have "find (\<lambda>x. rowHasSignature (snd x)) (eachRow ws)
     = find (\<lambda>x. rowHasSignature (snd x)) (zip [1..<Suc (length (srows ws))] (srows ws))"
    unfolding eachRow_def find_filter
    by (rule arg_cong [where f = "\<lambda>p. find p _"])
       (auto simp: fun_eq_iff rowHasSignature_hasValues)
  finally show ?thesis .
qed

lemma containsSignature_iff:
  "containsSignature ws n \<longleftrightarrow>
   1 \<le> n \<and> n \<le> length (srows ws) \<and> rowHasSignature (srows ws ! (n - 1))"
  by (auto simp: containsSignature_def getRow_def getRowOf_def rowHasSignature_def
        eachCell_def list_ex_iff)

lemma findSignatureRow_Some_iff:
  "findSignatureRow ws = Some n \<longleftrightarrow>
   containsSignature ws n \<and> (\<forall>m<n. \<not> containsSignature ws m)"
  unfolding findSignatureRow_find find_indexed_Some containsSignature_iff
  by auto

lemma findSignatureRow_None_iff:
  "findSignatureRow ws = None \<longleftrightarrow> (\<forall>m. \<not> containsSignature ws m)"
  unfolding findSignatureRow_find find_indexed_None containsSignature_iff
  by auto

lemma findTotalRow_truthy: "findTotalRow ws = Some n \<Longrightarrow> n \<noteq> 0"
  by (auto simp: findTotalRow_Some_iff containsTotal_iff)

lemma findSignatureRow_truthy: "findSignatureRow ws = Some n \<Longrightarrow> n \<noteq> 0"
  by (auto simp: findSignatureRow_Some_iff containsSignature_iff)

lemma subtotalStep_kind:
  "subtotalStep r (a, b, c) x =
     (case classifyCell (getCell r x) of
        EmptyKind \<Rightarrow> (a + 1, b, c)
      | NumericKind \<Rightarrow> (a, b + 1, c)
      | TextKind \<Rightarrow> (a, b, c + 1))"
  by (auto simp: subtotalStep_def classifyCell_def Let_def trim_def)

lemma subtotal_counts:
  "foldl (subtotalStep r) (a, b, c) xs =
     (a + length (filter (\<lambda>x. classifyCell (getCell r x) = EmptyKind) xs),
      b + length (filter (\<lambda>x. classifyCell (getCell r x) = NumericKind) xs),
      c + length (filter (\<lambda>x. classifyCell (getCell r x) = TextKind) xs))"
proof (induction xs arbitrary: a b c)
  case Nil
  then show ?case by simp
next
  case (Cons x xs)
  show ?case
    unfolding foldl_Cons subtotalStep_kind
    by (cases "classifyCell (getCell r x)") (simp_all add: Cons.IH)
qed

lemma isSubtotalRow_counts:
  "isSubtotalRow r startCol endCol \<longleftrightarrow>
     (of_nat (countKind EmptyKind r startCol endCol) :: rat) / of_int (endCol - startCol + 1)
       \<ge> 7 / 10
     \<and> 1 \<le> countKind NumericKind r startCol endCol
     \<and> countKind NumericKind r startCol endCol \<le> 3
     \<and> countKind TextKind r startCol endCol = 0"
  unfolding isSubtotalRow_def Let_def subtotal_counts countKind_def
  by simp

lemma subtotal_fold_window:
  "\<forall>x \<in> set xs. getCell r x = getCell r' x \<Longrightarrow>
   foldl (subtotalStep r) acc xs = foldl (subtotalStep r') acc xs"
proof (induction xs arbitrary: acc)
  case Nil
  then show ?case by simp
next
  case (Cons x xs)
  have "subtotalStep r acc x = subtotalStep r' acc x"
    using Cons.prems by (simp add: subtotalStep_def)
  then show ?case using Cons by simp
qed

lemma isSubtotalRow_window:
  "(\<forall>c. startCol \<le> c \<and> c \<le> endCol \<longrightarrow> getCell r c = getCell r' c) \<Longrightarrow>
   isSubtotalRow r startCol endCol = isSubtotalRow r' startCol endCol"
  unfolding isSubtotalRow_def
  using subtotal_fold_window [of "[startCol..endCol]" r r' "(0, 0, 0)"]
  by simp

text \<open>
  C5. \<open>findTotalRow\<close> returns the smallest row number whose row contains a cell with
  the text \<^verbatim>\<open>TOTAL\<close> (trimmed, in any case), and none when there is no such row;
  \<^verbatim>\<open>Total\<close> matches in any case, \<^verbatim>\<open>Total Amount\<close> does not.
\<close>

theorem findTotalRow_smallest_total_row:
  "(findTotalRow ws = Some n \<longleftrightarrow> containsTotal ws n \<and> (\<forall>m<n. \<not> containsTotal ws m))
   \<and> (findTotalRow ws = None \<longleftrightarrow> (\<forall>m. \<not> containsTotal ws m))
   \<and> isTotalCell (textCell ''Total'')
   \<and> isTotalCell (textCell '' tOtAl '')
   \<and> \<not> isTotalCell (textCell ''Total Amount'')"
proof -
  have "isTotalCell (textCell ''Total'')" by code_simp
  moreover have "isTotalCell (textCell '' tOtAl '')" by code_simp
  moreover have "\<not> isTotalCell (textCell ''Total Amount'')" by code_simp
  ultimately show ?thesis
    using findTotalRow_Some_iff [of ws n] findTotalRow_None_iff [of ws] by blast
qed

theorem findTotalRow_smallest_total_row_witness:
  "findTotalRow invoiceSheet = Some 3 \<and> containsTotal invoiceSheet 3
   \<and> \<not> containsTotal invoiceSheet 1 \<and> \<not> containsTotal invoiceSheet 2"
proof -
  have c0: "\<not> containsTotal invoiceSheet 0" by code_simp
  have c1: "\<not> containsTotal invoiceSheet 1" by code_simp
  have c2: "\<not> containsTotal invoiceSheet 2" by code_simp
  have c3: "containsTotal invoiceSheet 3" by code_simp
  have "\<forall>m<3. \<not> containsTotal invoiceSheet m"
  proof (intro allI impI)
    fix m :: nat assume "m < 3"
    then have "m = 0 \<or> m = 1 \<or> m = 2" by arith
    then show "\<not> containsTotal invoiceSheet m" using c0 c1 c2 by auto
  qed
  then show ?thesis
    using findTotalRow_smallest_total_row [of invoiceSheet 3] c1 c2 c3 by blast
qed

text \<open>
  C6. \<open>isSubtotalRow\<close> holds exactly when at least seven tenths of the window's cells
  are empty, one to three are numeric and none is textual.
\<close>

theorem isSubtotalRow_iff_counts:
  "isSubtotalRow r startCol endCol \<longleftrightarrow>
     (of_nat (countKind EmptyKind r startCol endCol) :: rat) / of_int (endCol - startCol + 1)
       \<ge> 7 / 10
     \<and> 1 \<le> countKind NumericKind r startCol endCol
     \<and> countKind NumericKind r startCol endCol \<le> 3
     \<and> countKind TextKind r startCol endCol = 0"
  by (rule isSubtotalRow_counts)

theorem isSubtotalRow_iff_counts_witness:
  "countKind EmptyKind sparseRow 1 10 = 8 \<and> countKind NumericKind sparseRow 1 10 = 2
   \<and> countKind TextKind sparseRow 1 10 = 0 \<and> isSubtotalRow sparseRow 1 10
   \<and> countKind EmptyKind labelledRow 1 10 = 7 \<and> countKind NumericKind labelledRow 1 10 = 1
   \<and> countKind TextKind labelledRow 1 10 = 2 \<and> \<not> isSubtotalRow labelledRow 1 10"
proof -
  have a: "countKind EmptyKind sparseRow 1 10 = 8" "countKind NumericKind sparseRow 1 10 = 2"
    "countKind TextKind sparseRow 1 10 = 0" by code_simp+
  have b: "countKind EmptyKind labelledRow 1 10 = 7"
    "countKind NumericKind labelledRow 1 10 = 1"
    "countKind TextKind labelledRow 1 10 = 2" by code_simp+
  show ?thesis
    using isSubtotalRow_iff_counts [of sparseRow 1 10]
      isSubtotalRow_iff_counts [of labelledRow 1 10] a b
    by simp
qed

text \<open>
  C3, as stated, fails: with the window B to C, a cell in column A decides both the
  total row and the signature row of a sheet.
\<close>

theorem classifiers_window_counterexample:
  "columnLetterToNumber (str ''B'') = 2 \<and> columnLetterToNumber (str ''C'') = 3
   \<and> getCell (getRow totalLeftOfWindow 1) 2 = getCell (getRow plainLeftOfWindow 1) 2
   \<and> getCell (getRow totalLeftOfWindow 1) 3 = getCell (getRow plainLeftOfWindow 1) 3
   \<and> getCell (getRow signatureLeftOfWindow 1) 2 = getCell (getRow plainLeftOfWindow 1) 2
   \<and> getCell (getRow signatureLeftOfWindow 1) 3 = getCell (getRow plainLeftOfWindow 1) 3
   \<and> findTotalRow totalLeftOfWindow = Some 1 \<and> findTotalRow plainLeftOfWindow = None
   \<and> findSignatureRow signatureLeftOfWindow = Some 1
   \<and> findSignatureRow plainLeftOfWindow = None"
  by code_simp

text \<open>
  C3, amended. Only the subtotal test is confined to the window: rows that agree on the
  columns from \<open>startCol\<close> to \<open>endCol\<close> are classified alike. The total row and the
  signature row are looked for in every cell of every row of the sheet.
\<close>

theorem classifiers_window_amended:
  "((\<forall>c. startCol \<le> c \<and> c \<le> endCol \<longrightarrow> getCell r c = getCell r' c) \<longrightarrow>
      isSubtotalRow r startCol endCol = isSubtotalRow r' startCol endCol)
   \<and> (findTotalRow ws \<noteq> None \<longleftrightarrow> (\<exists>n. containsTotal ws n))
   \<and> (findSignatureRow ws \<noteq> None \<longleftrightarrow> (\<exists>n. containsSignature ws n))"
proof (intro conjI)
  show "(\<forall>c. startCol \<le> c \<and> c \<le> endCol \<longrightarrow> getCell r c = getCell r' c) \<longrightarrow>
      isSubtotalRow r startCol endCol = isSubtotalRow r' startCol endCol"
    using isSubtotalRow_window [of startCol endCol r r'] by blast
  show "findTotalRow ws \<noteq> None \<longleftrightarrow> (\<exists>n. containsTotal ws n)"
    by (simp add: findTotalRow_None_iff)
  show "findSignatureRow ws \<noteq> None \<longleftrightarrow> (\<exists>n. containsSignature ws n)"
    by (simp add: findSignatureRow_None_iff)
qed

theorem classifiers_window_amended_witness:
  "getCell sparseRow 1 \<noteq> getCell (textCell ''bolt'' # tl sparseRow) 1
   \<and> isSubtotalRow sparseRow 2 10 = isSubtotalRow (textCell ''bolt'' # tl sparseRow) 2 10
   \<and> isSubtotalRow sparseRow 2 10
   \<and> findTotalRow totalLeftOfWindow \<noteq> None \<and> containsTotal totalLeftOfWindow 1"
proof -
  have "getCell sparseRow c = getCell (textCell ''bolt'' # tl sparseRow) c"
    if "2 \<le> c \<and> c \<le> 10" for c
    using that by (simp add: getCell_def sparseRow_def nth_Cons')
  then have "\<forall>c. 2 \<le> c \<and> c \<le> 10 \<longrightarrow>
      getCell sparseRow c = getCell (textCell ''bolt'' # tl sparseRow) c" by blast
  moreover have "getCell sparseRow 1 \<noteq> getCell (textCell ''bolt'' # tl sparseRow) 1"
    by code_simp
  moreover have "isSubtotalRow sparseRow 2 10" by code_simp
  moreover have "containsTotal totalLeftOfWindow 1" by code_simp
  ultimately show ?thesis
    using classifiers_window_amended
      [of 2 10 sparseRow "textCell ''bolt'' # tl sparseRow" totalLeftOfWindow]
    by blast
qed

subsection \<open>Row copier\<close>

lemma getCell_putCell:
  assumes c: "1 \<le> c"
  shows "getCell (putCell r c x) c' = (if c' = c then x else getCell r c')"
proof -
  let ?p = "r @ replicate (nat c - length r) emptyCell"
  have pc: "putCell r c x = ?p[nat (c - 1) := x]" using c by (simp add: putCell_def)
  have len: "length (putCell r c x) = max (length r) (nat c)" unfolding pc by simp
  have idx: "nat (c - 1) < length ?p" using c by (simp add: max_def)
  show ?thesis
  proof (cases "c' = c")
    case True
    have "c \<le> int (length (putCell r c x))" unfolding len using c by simp
    then have "getCell (putCell r c x) c = putCell r c x ! nat (c - 1)"
      using c by (simp add: getCell_def)
    also have "\<dots> = x" unfolding pc using idx by simp
    finally show ?thesis using True by simp
  next
    case False
    show ?thesis
    proof (cases "1 \<le> c'")
      case lo: True
      have ne: "nat (c' - 1) \<noteq> nat (c - 1)" using False c lo by simp
      show ?thesis
      proof (cases "c' \<le> int (length r)")
        case True
        have j: "nat (c' - 1) < length r" using True lo by simp
        have "c' \<le> int (length (putCell r c x))" unfolding len using True by simp
        then have "getCell (putCell r c x) c' = putCell r c x ! nat (c' - 1)"
          using lo by (simp add: getCell_def)
        also have "\<dots> = ?p ! nat (c' - 1)" unfolding pc using ne by simp
        also have "\<dots> = r ! nat (c' - 1)" using j by (simp add: nth_append)
        also have "\<dots> = getCell r c'" using True lo by (simp add: getCell_def)
        finally show ?thesis using False by simp
      next
        case hi: False
        have g: "getCell r c' = emptyCell" using hi by (simp add: getCell_def)
        have j: "\<not> nat (c' - 1) < length r" using hi lo by simp
        show ?thesis
        proof (cases "c' \<le> int (length (putCell r c x))")
          case True
          then have k: "nat (c' - 1) < length ?p" using lo len pc by simp
          have "getCell (putCell r c x) c' = putCell r c x ! nat (c' - 1)"
            using True lo by (simp add: getCell_def)
          also have "\<dots> = ?p ! nat (c' - 1)" unfolding pc using ne by simp
          also have "\<dots> = emptyCell" using j k by (simp add: nth_append)
          finally show ?thesis using False g by simp
        next
          case False
          then show ?thesis using \<open>c' \<noteq> c\<close> g by (simp add: getCell_def)
        qed
      qed
    next
      case False
      then show ?thesis using \<open>c' \<noteq> c\<close> by (simp add: getCell_def)
    qed
  qed
qed

lemma putCell_low: "c < 1 \<Longrightarrow> putCell r c x = r"
  by (simp add: putCell_def)

lemma getCell_low: "c < 1 \<Longrightarrow> getCell r c = emptyCell"
  by (simp add: getCell_def)

lemma getCell_Nil: "getCell [] c = emptyCell"
  by (auto simp add: getCell_def)

lemma extract_emptyCell: "extractSafeCellValue emptyCell = VNull"
  by (simp add: extractSafeCellValue_def emptyCell_def)

lemma emptyCell_style:
  "font emptyCell = None" "fill emptyCell = None" "alignment emptyCell = None"
  "border emptyCell = None" "numFmt emptyCell = None"
  by (simp_all add: emptyCell_def)

lemma copyCell_emptyCell: "copyCell emptyCell t = t"
  by (simp add: copyCell_def extract_emptyCell Let_def emptyCell_style)

lemma copy_step_getCell:
  "getCell (putCell t x (copyCell (getCell s x) (getCell t x))) c
   = (if c = x then copyCell (getCell s x) (getCell t x) else getCell t c)"
proof (cases "1 \<le> x")
  case True
  then show ?thesis by (simp add: getCell_putCell)
next
  case False
  then have "x < 1" by simp
  then show ?thesis
    by (simp add: putCell_low getCell_low copyCell_emptyCell)
qed

lemma copy_fold_getCell:
  "distinct xs \<Longrightarrow>
   getCell (foldl (\<lambda>target colIndex.
              putCell target colIndex
                (copyCell (getCell s colIndex) (getCell target colIndex))) t xs) c
   = (if c \<in> set xs then copyCell (getCell s c) (getCell t c) else getCell t c)"
proof (induction xs arbitrary: t)
  case Nil
  then show ?case by simp
next
  case (Cons x xs)
  then have d: "distinct xs" and nx: "x \<notin> set xs" by auto
  show ?case
    unfolding foldl_Cons Cons.IH [OF d] copy_step_getCell
    using nx by auto
qed

lemma copyRow_getCell:
  "getCell (copyRowWithFormatting s t startCol endCol) c
   = (if startCol \<le> c \<and> c \<le> endCol then copyCell (getCell s c) (getCell t c)
      else getCell t c)"
  unfolding copyRowWithFormatting_def
  using copy_fold_getCell [of "[startCol..endCol]" s t c]
  by simp

lemma cvalue_style_update:
  "cvalue (if b then t\<lparr>font := x\<rparr> else t) = cvalue t"
  "cvalue (if b then t\<lparr>fill := x\<rparr> else t) = cvalue t"
  "cvalue (if b then t\<lparr>alignment := x\<rparr> else t) = cvalue t"
  "cvalue (if b then t\<lparr>border := x\<rparr> else t) = cvalue t"
  "cvalue (if b then t\<lparr>numFmt := y\<rparr> else t) = cvalue t"
  by simp_all

lemma copyCell_value:
  "cvalue (copyCell s t)
   = (if extractSafeCellValue s \<noteq> VNull then extractSafeCellValue s else cvalue t)"
  unfolding copyCell_def Let_def cvalue_style_update
  by (simp add: setValue_def)

lemma freshCopy_outside:
  "c < startCol \<or> endCol < c \<Longrightarrow> getCell (freshCopy startCol endCol s) c = emptyCell"
  by (auto simp: freshCopy_def copyRow_getCell getCell_Nil)

lemma getRowOf_end: "getRowOf ws (Suc (length ws)) = []"
  by (simp add: getRowOf_def)

subsection \<open>Merge orchestrator\<close>

lemma putRowOf_end: "putRowOf ws (Suc (length ws)) r = ws @ [r]"
  by (simp add: putRowOf_def)

lemma copyToTarget_worksheet:
  "cursorAtEnd st \<Longrightarrow>
   worksheet (copyToTarget sc ec st r) = worksheet st @ [freshCopy sc ec r]"
  by (simp add: copyToTarget_def cursorAtEnd_def Let_def getRowOf_end putRowOf_end freshCopy_def)

lemma copyToTarget_cursor: "cursorAtEnd st \<Longrightarrow> cursorAtEnd (copyToTarget sc ec st r)"
  by (simp add: copyToTarget_def cursorAtEnd_def Let_def getRowOf_end putRowOf_end)

lemma copyToTarget_flag: "isFirstSheet (copyToTarget sc ec st r) = isFirstSheet st"
  by (simp add: copyToTarget_def Let_def)

lemma copyToTarget_buffer:
  "signatureRowsToAdd (copyToTarget sc ec st r) = signatureRowsToAdd st"
  by (simp add: copyToTarget_def Let_def)

lemma cursorAtEnd_buffer: "cursorAtEnd (st\<lparr>signatureRowsToAdd := b\<rparr>) = cursorAtEnd st"
  by (simp add: cursorAtEnd_def)

lemma cursorAtEnd_flag: "cursorAtEnd (st\<lparr>isFirstSheet := b\<rparr>) = cursorAtEnd st"
  by (simp add: cursorAtEnd_def)

lemma copy_rows_fold:
  "cursorAtEnd st \<Longrightarrow>
   worksheet (foldl (\<lambda>s x. copyToTarget sc ec s (f x)) st xs)
     = worksheet st @ map (\<lambda>x. freshCopy sc ec (f x)) xs
   \<and> cursorAtEnd (foldl (\<lambda>s x. copyToTarget sc ec s (f x)) st xs)
   \<and> isFirstSheet (foldl (\<lambda>s x. copyToTarget sc ec s (f x)) st xs) = isFirstSheet st
   \<and> signatureRowsToAdd (foldl (\<lambda>s x. copyToTarget sc ec s (f x)) st xs)
       = signatureRowsToAdd st"
proof (induction xs arbitrary: st)
  case Nil
  then show ?case by simp
next
  case (Cons x xs)
  have c: "cursorAtEnd (copyToTarget sc ec st (f x))"
    using Cons.prems by (rule copyToTarget_cursor)
  show ?case
    using Cons.IH [OF c] Cons.prems
    by (simp add: copyToTarget_worksheet copyToTarget_flag copyToTarget_buffer)
qed

lemma dataRowLoop_effect:
  assumes "tot \<noteq> Some 0" and "sg \<noteq> Some 0" and "cursorAtEnd st"
  shows
   "worksheet (dataRowLoop config sc ec sh tot sg lastRow rs st)
      = worksheet st @
        map (\<lambda>r. freshCopy sc ec (getRow sh r))
          (filter (\<lambda>r. if tot = Some r then includeTotal config
                        else includeTotal config \<or> \<not> isSubtotalRow (getRow sh r) sc ec)
             (takeWhile (\<lambda>r. \<not> (tot \<noteq> Some r \<and>
                                  (case sg of None \<Rightarrow> False | Some s \<Rightarrow> s \<le> r))) rs))
    \<and> cursorAtEnd (dataRowLoop config sc ec sh tot sg lastRow rs st)
    \<and> isFirstSheet (dataRowLoop config sc ec sh tot sg lastRow rs st) = isFirstSheet st
    \<and> signatureRowsToAdd (dataRowLoop config sc ec sh tot sg lastRow rs st)
        = (if list_ex (\<lambda>r. tot \<noteq> Some r \<and>
                            (case sg of None \<Rightarrow> False | Some s \<Rightarrow> s \<le> r)) rs
              \<and> includeSignature config \<and> signatureRowsToAdd st = []
           then map (\<lambda>n. (getRow sh n, sh)) [numberOf sg..<Suc lastRow]
           else signatureRowsToAdd st)"
  using assms(3)
proof (induction rs arbitrary: st)
  case Nil
  then show ?case by simp
next
  case (Cons r rs)
  have t: "(truthy tot \<and> Some r = tot) = (tot = Some r)"
    using assms(1) by (cases tot) auto
  have s: "(truthy sg \<and> numberOf sg \<le> r) = (case sg of None \<Rightarrow> False | Some s \<Rightarrow> s \<le> r)"
    using assms(2) by (cases sg) auto
  let ?L = "\<lambda>rs st. dataRowLoop config sc ec sh tot sg lastRow rs st"
  show ?case
  proof (cases "tot = Some r")
    case True
    have c1: "(truthy tot \<and> Some r = tot) = True" using t True by simp
    show ?thesis
    proof (cases "includeTotal config")
      case it: True
      have c: "cursorAtEnd (copyToTarget sc ec st (getRow sh r))"
        using Cons.prems by (rule copyToTarget_cursor)
      have e: "?L (r # rs) st = ?L rs (copyToTarget sc ec st (getRow sh r))"
        by (simp only: dataRowLoop.simps Let_def c1 if_True it)
      show ?thesis
        unfolding e
        using Cons.IH [OF c] Cons.prems True it
        by (simp add: copyToTarget_worksheet copyToTarget_flag copyToTarget_buffer)
    next
      case it: False
      have e: "?L (r # rs) st = ?L rs st"
        by (simp only: dataRowLoop.simps Let_def c1 if_True it if_False)
      show ?thesis
        unfolding e
        using Cons.IH [OF Cons.prems] True it
        by simp
    qed
  next
    case nt: False
    have c1: "(truthy tot \<and> Some r = tot) = False" using t nt by simp
    show ?thesis
    proof (cases "case sg of None \<Rightarrow> False | Some s \<Rightarrow> s \<le> r")
      case True
      have c2: "(truthy sg \<and> numberOf sg \<le> r) = True" using s True by simp
      have e: "?L (r # rs) st =
          (if includeSignature config \<and> signatureRowsToAdd st = [] then
              st\<lparr>signatureRowsToAdd :=
                    signatureRowsToAdd st @
                    map (\<lambda>sigRowNum. (getRow sh sigRowNum, sh))
                      [numberOf sg..<Suc lastRow]\<rparr>
            else st)"
        by (simp only: dataRowLoop.simps Let_def c1 c2 if_True if_False length_0_conv)
      show ?thesis
        unfolding e
        using Cons.prems nt True
        by (simp add: cursorAtEnd_buffer del: upt_Suc)
    next
      case ns: False
      have c2: "(truthy sg \<and> numberOf sg \<le> r) = False" using s ns by simp
      show ?thesis
      proof (cases "\<not> includeTotal config \<and> isSubtotalRow (getRow sh r) sc ec")
        case True
        then have c3: "(\<not> includeTotal config \<and> isSubtotalRow (getRow sh r) sc ec) = True"
          by simp
        have e: "?L (r # rs) st = ?L rs st"
          by (simp only: dataRowLoop.simps Let_def c1 c2 c3 if_True if_False)
        show ?thesis
          unfolding e
          using Cons.IH [OF Cons.prems] nt ns True
          by simp
      next
        case False
        then have c3: "(\<not> includeTotal config \<and> isSubtotalRow (getRow sh r) sc ec) = False"
          by simp
        have c: "cursorAtEnd (copyToTarget sc ec st (getRow sh r))"
          using Cons.prems by (rule copyToTarget_cursor)
        have e: "?L (r # rs) st = ?L rs (copyToTarget sc ec st (getRow sh r))"
          by (simp only: dataRowLoop.simps Let_def c1 c2 c3 if_True if_False)
        show ?thesis
          unfolding e
          using Cons.IH [OF c] Cons.prems nt ns False
          by (simp add: copyToTarget_worksheet copyToTarget_flag copyToTarget_buffer)
      qed
    qed
  qed
qed

lemma processSheet_effect:
  assumes "cursorAtEnd st"
  shows
   "worksheet (processSheet config sc ec st sh)
      = worksheet st @
        (if isFirstSheet st then map (freshCopy sc ec) (headerRows config sh) else []) @
        dataCopies config sc ec sh
    \<and> cursorAtEnd (processSheet config sc ec st sh)
    \<and> \<not> isFirstSheet (processSheet config sc ec st sh)
    \<and> signatureRowsToAdd (processSheet config sc ec st sh)
        = (if capturesSignature config sh \<and> includeSignature config
              \<and> signatureRowsToAdd st = []
           then map (\<lambda>r. (r, sh)) (signatureSection sh)
           else signatureRowsToAdd st)"
proof -
  let ?st1 = "if isFirstSheet st
              then foldl (\<lambda>s rowNum. copyToTarget sc ec s (getRow sh rowNum)) st
                     [1..<startRow config]
              else st"
  have h: "worksheet ?st1 = worksheet st @
             (if isFirstSheet st then map (freshCopy sc ec) (headerRows config sh) else [])"
    "cursorAtEnd ?st1" "signatureRowsToAdd ?st1 = signatureRowsToAdd st"
    using copy_rows_fold [OF assms, of sc ec "getRow sh" "[1..<startRow config]"] assms
    by (simp_all add: headerRows_def comp_def)
  have t: "findTotalRow sh \<noteq> Some 0" using findTotalRow_truthy [of sh 0] by blast
  have s: "findSignatureRow sh \<noteq> Some 0" using findSignatureRow_truthy [of sh 0] by blast
  note d = dataRowLoop_effect [OF t s h(2), of config sc ec sh "lastRowNumber sh"
      "[startRow config..<Suc (lastRowNumber sh)]"]
  have w: "\<And>r. (findTotalRow sh \<noteq> Some r \<and>
               (case findSignatureRow sh of None \<Rightarrow> False | Some s \<Rightarrow> s \<le> r))
          = walkStops sh r"
    by (simp add: walkStops_def)
  have k: "\<And>r. (if findTotalRow sh = Some r then includeTotal config
               else includeTotal config \<or> \<not> isSubtotalRow (getRow sh r) sc ec)
          = rowKept config sc ec sh r"
    by (simp add: rowKept_def)
  have m: "map (\<lambda>n. (getRow sh n, sh)) [numberOf (findSignatureRow sh)..<Suc (lastRowNumber sh)]
          = map (\<lambda>r. (r, sh)) (signatureSection sh)"
    by (simp add: signatureSection_def comp_def del: upt_Suc)
  let ?st2 = "dataRowLoop config sc ec sh (findTotalRow sh) (findSignatureRow sh)
            (lastRowNumber sh) [startRow config..<Suc (lastRowNumber sh)] ?st1"
  note d' = d [unfolded w k m]
  have p: "processSheet config sc ec st sh = ?st2\<lparr>isFirstSheet := False\<rparr>"
    by (simp add: processSheet_def Let_def del: upt_Suc)
  have d1: "worksheet ?st2 = worksheet ?st1 @ dataCopies config sc ec sh"
    using d' unfolding dataCopies_def dataRowsCopied_def by blast
  have d2: "cursorAtEnd ?st2" using d' by blast
  have d4: "signatureRowsToAdd ?st2
        = (if capturesSignature config sh \<and> includeSignature config
              \<and> signatureRowsToAdd ?st1 = []
           then map (\<lambda>r. (r, sh)) (signatureSection sh)
           else signatureRowsToAdd ?st1)"
    using d' unfolding capturesSignature_def by blast
  have g1: "worksheet (processSheet config sc ec st sh)
      = worksheet st @
        (if isFirstSheet st then map (freshCopy sc ec) (headerRows config sh) else []) @
        dataCopies config sc ec sh"
    unfolding p using d1 h(1) by simp
  have g2: "cursorAtEnd (processSheet config sc ec st sh)"
    unfolding p using d2 by (simp add: cursorAtEnd_flag)
  have g3: "\<not> isFirstSheet (processSheet config sc ec st sh)"
    unfolding p by simp
  have g4: "signatureRowsToAdd (processSheet config sc ec st sh)
        = (if capturesSignature config sh \<and> includeSignature config
              \<and> signatureRowsToAdd st = []
           then map (\<lambda>r. (r, sh)) (signatureSection sh)
           else signatureRowsToAdd st)"
    unfolding p using d4 h(3) by simp
  show ?thesis using g1 g2 g3 g4 by blast
qed

lemma captured_section_nonempty:
  "capturesSignature config sh \<Longrightarrow> signatureSection sh \<noteq> []"
  by (auto simp: capturesSignature_def signatureSection_def walkStops_def list_ex_iff
        split: option.splits simp del: upt_Suc)

lemma sheets_fold:
  assumes "cursorAtEnd st"
  shows
   "worksheet (foldl (processSheet config sc ec) st shs)
      = worksheet st @
        (if isFirstSheet st then headerCopies config sc ec shs else []) @
        concat (map (dataCopies config sc ec) shs)
    \<and> cursorAtEnd (foldl (processSheet config sc ec) st shs)
    \<and> signatureRowsToAdd (foldl (processSheet config sc ec) st shs)
        = (if includeSignature config \<and> signatureRowsToAdd st = [] then
             (case find (capturesSignature config) shs of
                None \<Rightarrow> []
              | Some sh \<Rightarrow> map (\<lambda>r. (r, sh)) (signatureSection sh))
           else signatureRowsToAdd st)"
  using assms
proof (induction shs arbitrary: st)
  case Nil
  then show ?case by (simp add: headerCopies_def)
next
  case (Cons sh shs)
  note e = processSheet_effect [OF Cons.prems, of config sc ec sh]
  from e have c: "cursorAtEnd (processSheet config sc ec st sh)" by blast
  note ih = Cons.IH [OF c]
  from e have f: "\<not> isFirstSheet (processSheet config sc ec st sh)" by blast
  have w: "worksheet (foldl (processSheet config sc ec) st (sh # shs))
      = worksheet st @
        (if isFirstSheet st then headerCopies config sc ec (sh # shs) else []) @
        concat (map (dataCopies config sc ec) (sh # shs))"
    using ih e f by (simp add: headerCopies_def)
  have b: "signatureRowsToAdd (foldl (processSheet config sc ec) st (sh # shs))
        = (if includeSignature config \<and> signatureRowsToAdd st = [] then
             (case find (capturesSignature config) (sh # shs) of
                None \<Rightarrow> []
              | Some sh \<Rightarrow> map (\<lambda>r. (r, sh)) (signatureSection sh))
           else signatureRowsToAdd st)"
    using ih e captured_section_nonempty [of config sh] by auto
  show ?case using w b ih by simp
qed

lemma processFiles_concat:
  "processFiles config sc ec st files = foldl (processSheet config sc ec) st (concat files)"
  unfolding processFiles_def
  by (induction files arbitrary: st) simp_all

lemma cursorAtEnd_initial: "cursorAtEnd initialState"
  by (simp add: cursorAtEnd_def initialState_def)

lemma addSignature_worksheet:
  "cursorAtEnd st \<Longrightarrow>
   worksheet (addSignature sc ec st)
   = worksheet st @ map (\<lambda>e. freshCopy sc ec (fst e)) (signatureRowsToAdd st)"
  using copy_rows_fold [of st sc ec fst "signatureRowsToAdd st"]
  by (auto simp: addSignature_def)

lemma merge_state_rows:
  "worksheet (addSignature sc ec (processFiles config sc ec initialState files))
   = headerCopies config sc ec (concat files)
     @ concat (map (dataCopies config sc ec) (concat files))
     @ signatureBlock config sc ec (concat files)"
proof -
  note f = sheets_fold [OF cursorAtEnd_initial, of config sc ec "concat files"]
  have i: "isFirstSheet initialState" "worksheet initialState = []"
    "signatureRowsToAdd initialState = []"
    by (simp_all add: initialState_def)
  have c: "cursorAtEnd (processFiles config sc ec initialState files)"
    using f by (simp add: processFiles_concat)
  have s: "map (\<lambda>e. freshCopy sc ec (fst e))
             (signatureRowsToAdd (processFiles config sc ec initialState files))
           = signatureBlock config sc ec (concat files)"
    using f i by (simp add: processFiles_concat signatureBlock_def comp_def split: option.splits)
  show ?thesis
    unfolding addSignature_worksheet [OF c] s
    using f i by (simp add: processFiles_concat)
qed

lemma merge_rows:
  assumes "mergeExcelFiles files config = Inr out"
  shows "srows (last out)
   = headerCopies config (columnLetterToNumber (startColumn config))
       (columnLetterToNumber (endColumn config)) (concat files)
     @ concat (map (dataCopies config (columnLetterToNumber (startColumn config))
                       (columnLetterToNumber (endColumn config))) (concat files))
     @ signatureBlock config (columnLetterToNumber (startColumn config))
         (columnLetterToNumber (endColumn config)) (concat files)"
  using assms merge_state_rows [of "columnLetterToNumber (startColumn config)"
      "columnLetterToNumber (endColumn config)" config files]
  by (auto simp: mergeExcelFiles_def Let_def split: list.splits if_splits)

lemma merge_succeeds:
  "(\<exists>out. mergeExcelFiles files config = Inr out) \<longleftrightarrow>
   files \<noteq> [] \<and>
   \<not> (hd files = [] \<and>
      columnLetterToNumber (startColumn config) \<le> columnLetterToNumber (endColumn config))"
  by (auto simp: mergeExcelFiles_def Let_def split: list.splits)

lemma signatureBlock_copies:
  "r \<in> set (signatureBlock config sc ec shs) \<Longrightarrow> \<exists>s. r = freshCopy sc ec s"
  unfolding signatureBlock_def
  by (cases "includeSignature config"; cases "find (capturesSignature config) shs") auto

lemma headerCopies_copies:
  "r \<in> set (headerCopies config sc ec shs) \<Longrightarrow> \<exists>s. r = freshCopy sc ec s"
  unfolding headerCopies_def by (cases shs) auto

lemma dataCopies_copies:
  "r \<in> set (concat (map (dataCopies config sc ec) shs)) \<Longrightarrow> \<exists>s. r = freshCopy sc ec s"
  unfolding dataCopies_def by auto

lemma merged_rows_are_copies:
  assumes "r \<in> set (headerCopies config sc ec shs @ concat (map (dataCopies config sc ec) shs)
             @ signatureBlock config sc ec shs)"
  shows "\<exists>s. r = freshCopy sc ec s"
proof -
  from assms have "r \<in> set (headerCopies config sc ec shs)
      \<or> r \<in> set (concat (map (dataCopies config sc ec) shs))
      \<or> r \<in> set (signatureBlock config sc ec shs)"
    by simp
  then show ?thesis
    using headerCopies_copies dataCopies_copies signatureBlock_copies by blast
qed

lemma consolidatedRows_parts:
  assumes "files \<noteq> []" and "hd files \<noteq> []"
  shows "consolidatedRows (mergeExcelFiles files config)
   = headerCopies config (columnLetterToNumber (startColumn config))
       (columnLetterToNumber (endColumn config)) (concat files)
     @ concat (map (dataCopies config (columnLetterToNumber (startColumn config))
                       (columnLetterToNumber (endColumn config))) (concat files))
     @ signatureBlock config (columnLetterToNumber (startColumn config))
         (columnLetterToNumber (endColumn config)) (concat files)"
proof -
  obtain out where o: "mergeExcelFiles files config = Inr out"
    using merge_succeeds [of files config] assms by auto
  show ?thesis using merge_rows [OF o] o by (simp add: consolidatedRows_def)
qed

lemma mergeConfig_window:
  "columnLetterToNumber (startColumn mergeConfig) = 2"
  "columnLetterToNumber (endColumn mergeConfig) = 3"
  by code_simp+

lemma mergeConfig_fields:
  "startRow mergeConfig = 2" "includeTotal mergeConfig" "includeSignature mergeConfig"
  by (simp_all add: mergeConfig_def)

lemma sheetA_facts:
  "findTotalRow sheetA = Some 3" "findSignatureRow sheetA = Some 4" "lastRowNumber sheetA = 5"
  by code_simp+

lemma sheetB_facts:
  "findTotalRow sheetB = Some 3" "findSignatureRow sheetB = Some 4" "lastRowNumber sheetB = 4"
  by code_simp+

lemma sheetC_facts:
  "findTotalRow sheetC = None" "findSignatureRow sheetC = Some 3" "lastRowNumber sheetC = 3"
  by code_simp+

lemma example_rows_copied:
  "dataRowsCopied mergeConfig 2 3 sheetA = [2, 3]"
  "dataRowsCopied mergeConfig 2 3 sheetB = [2, 3]"
  "dataRowsCopied mergeConfig 2 3 sheetC = [2]"
  by (simp_all add: dataRowsCopied_def walkStops_def rowKept_def mergeConfig_fields
        sheetA_facts sheetB_facts sheetC_facts upt_rec)

lemma example_captures: "capturesSignature mergeConfig sheetA"
  by (simp add: capturesSignature_def walkStops_def mergeConfig_fields sheetA_facts upt_rec)

lemma example_section: "signatureSection sheetA = [getRow sheetA 4, getRow sheetA 5]"
  by (simp add: signatureSection_def sheetA_facts upt_rec)

lemma example_header: "headerRows mergeConfig sheetA = [getRow sheetA 1]"
  by (simp add: headerRows_def mergeConfig_fields upt_rec)

lemma example_copies:
  "map cvalue (freshCopy 2 3 (getRow sheetA 1)) = [VNull, VString (str ''Name''), VString (str ''Qty'')]"
  "map cvalue (freshCopy 2 3 (getRow sheetA 2)) = [VNull, VString (str ''bolt''), VNumber 4]"
  "map cvalue (freshCopy 2 3 (getRow sheetA 3)) = [VNull, VString (str ''TOTAL''), VNumber 4]"
  "map cvalue (freshCopy 2 3 (getRow sheetB 2)) = [VNull, VString (str ''nut''), VNumber 7]"
  "map cvalue (freshCopy 2 3 (getRow sheetB 3)) = [VNull, VString (str ''Total''), VNumber 7]"
  "map cvalue (freshCopy 2 3 (getRow sheetC 2)) = [VNull, VString (str ''washer''), VNumber 9]"
  "map cvalue (freshCopy 2 3 (getRow sheetA 4)) = [VNull, VString (str ''Signature of sender''), VNull]"
  "map cvalue (freshCopy 2 3 (getRow sheetA 5)) = [VNull, VString (str ''Mr A''), VNull]"
  by code_simp+

lemma example_merge_rows:
  "consolidatedRows (mergeExcelFiles [[sheetA], [sheetB], [sheetC]] mergeConfig)
   = [freshCopy 2 3 (getRow sheetA 1),
      freshCopy 2 3 (getRow sheetA 2), freshCopy 2 3 (getRow sheetA 3),
      freshCopy 2 3 (getRow sheetB 2), freshCopy 2 3 (getRow sheetB 3),
      freshCopy 2 3 (getRow sheetC 2),
      freshCopy 2 3 (getRow sheetA 4), freshCopy 2 3 (getRow sheetA 5)]"
proof -
  have n: "[[sheetA], [sheetB], [sheetC]] \<noteq> []" "hd [[sheetA], [sheetB], [sheetC]] \<noteq> []"
    by simp_all
  show ?thesis
    unfolding consolidatedRows_parts [OF n] mergeConfig_window
    by (simp add: headerCopies_def dataCopies_def signatureBlock_def example_rows_copied
          example_captures example_section example_header mergeConfig_fields)
qed

lemma example_merge:
  "map (map cvalue)
     (consolidatedRows (mergeExcelFiles [[sheetA], [sheetB], [sheetC]] mergeConfig))
   = [[VNull, VString (str ''Name''), VString (str ''Qty'')],
      [VNull, VString (str ''bolt''), VNumber 4],
      [VNull, VString (str ''TOTAL''), VNumber 4],
      [VNull, VString (str ''nut''), VNumber 7],
      [VNull, VString (str ''Total''), VNumber 7],
      [VNull, VString (str ''washer''), VNumber 9],
      [VNull, VString (str ''Signature of sender''), VNull],
      [VNull, VString (str ''Mr A''), VNull]]"
  unfolding example_merge_rows by (simp only: list.map example_copies)

subsection \<open>Claims on the copier and the merge\<close>

text \<open>
  C8. \<open>copyRowWithFormatting\<close> leaves every target cell outside the window as it was,
  and puts each extracted value that is not null into the target cell of the same
  column (a null value leaves the target's value); every row of the merged sheet is
  empty outside the configured window.
\<close>

theorem copyRowWithFormatting_window:
  "(c < startCol \<or> endCol < c \<longrightarrow>
      getCell (copyRowWithFormatting s t startCol endCol) c = getCell t c)
   \<and> (startCol \<le> c \<and> c \<le> endCol \<and> extractSafeCellValue (getCell s c) \<noteq> VNull \<longrightarrow>
        cvalue (getCell (copyRowWithFormatting s t startCol endCol) c)
        = extractSafeCellValue (getCell s c))
   \<and> (startCol \<le> c \<and> c \<le> endCol \<and> extractSafeCellValue (getCell s c) = VNull \<longrightarrow>
        cvalue (getCell (copyRowWithFormatting s t startCol endCol) c) = cvalue (getCell t c))
   \<and> (mergeExcelFiles files config = Inr out
        \<and> (c < columnLetterToNumber (startColumn config)
            \<or> columnLetterToNumber (endColumn config) < c) \<longrightarrow>
        list_all (\<lambda>r. getCell r c = emptyCell) (srows (last out)))"
proof (intro conjI impI)
  assume "c < startCol \<or> endCol < c"
  then show "getCell (copyRowWithFormatting s t startCol endCol) c = getCell t c"
    by (auto simp: copyRow_getCell)
next
  assume "startCol \<le> c \<and> c \<le> endCol \<and> extractSafeCellValue (getCell s c) \<noteq> VNull"
  then show "cvalue (getCell (copyRowWithFormatting s t startCol endCol) c)
        = extractSafeCellValue (getCell s c)"
    by (simp add: copyRow_getCell copyCell_value)
next
  assume "startCol \<le> c \<and> c \<le> endCol \<and> extractSafeCellValue (getCell s c) = VNull"
  then show "cvalue (getCell (copyRowWithFormatting s t startCol endCol) c)
        = cvalue (getCell t c)"
    by (simp add: copyRow_getCell copyCell_value)
next
  assume a: "mergeExcelFiles files config = Inr out
        \<and> (c < columnLetterToNumber (startColumn config)
            \<or> columnLetterToNumber (endColumn config) < c)"
  show "list_all (\<lambda>r. getCell r c = emptyCell) (srows (last out))"
    unfolding list_all_iff
  proof
    fix r assume "r \<in> set (srows (last out))"
    then obtain src where "r = freshCopy (columnLetterToNumber (startColumn config))
        (columnLetterToNumber (endColumn config)) src"
      using merge_rows [of files config out] a merged_rows_are_copies by metis
    then show "getCell r c = emptyCell" using a freshCopy_outside by blast
  qed
qed

theorem copyRowWithFormatting_window_witness:
  "getCell (copyRowWithFormatting (getRow sheetA 2) (getRow sheetB 2) 2 2) 1
     = getCell (getRow sheetB 2) 1
   \<and> getCell (copyRowWithFormatting (getRow sheetA 2) (getRow sheetB 2) 2 2) 3
     = getCell (getRow sheetB 2) 3
   \<and> cvalue (getCell (copyRowWithFormatting (getRow sheetA 2) (getRow sheetB 2) 2 2) 2)
     = VString (str ''bolt'')
   \<and> cvalue (getCell (copyRowWithFormatting (getRow sheetA 4) (getRow sheetB 2) 1 1) 1)
     = VNumber 2
   \<and> list_all (\<lambda>r. getCell r 1 = emptyCell)
       (consolidatedRows (mergeExcelFiles [[sheetA], [sheetB], [sheetC]] mergeConfig))
   \<and> length (consolidatedRows (mergeExcelFiles [[sheetA], [sheetB], [sheetC]] mergeConfig))
       = 8"
proof -
  let ?F = "[[sheetA], [sheetB], [sheetC]]"
  obtain out where o: "mergeExcelFiles ?F mergeConfig = Inr out"
    using merge_succeeds [of ?F mergeConfig] by auto
  have e: "extractSafeCellValue (getCell (getRow sheetA 2) 2) = VString (str ''bolt'')"
    "extractSafeCellValue (getCell (getRow sheetA 4) 1) = VNull"
    "cvalue (getCell (getRow sheetB 2) 1) = VNumber 2" by code_simp+
  have v: "VString (str ''bolt'') \<noteq> VNull" by simp
  have r: "srows (last out) = consolidatedRows (mergeExcelFiles ?F mergeConfig)"
    using o by (simp add: consolidatedRows_def)
  have a1: "getCell (copyRowWithFormatting (getRow sheetA 2) (getRow sheetB 2) 2 2) 1
     = getCell (getRow sheetB 2) 1"
    using copyRowWithFormatting_window [of 1 2 2 "getRow sheetA 2" "getRow sheetB 2"]
    by simp
  have a2: "getCell (copyRowWithFormatting (getRow sheetA 2) (getRow sheetB 2) 2 2) 3
     = getCell (getRow sheetB 2) 3"
    using copyRowWithFormatting_window [of 3 2 2 "getRow sheetA 2" "getRow sheetB 2"]
    by simp
  have a3: "cvalue (getCell (copyRowWithFormatting (getRow sheetA 2) (getRow sheetB 2) 2 2) 2)
     = VString (str ''bolt'')"
    using copyRowWithFormatting_window [of 2 2 2 "getRow sheetA 2" "getRow sheetB 2"] e(1) v
    by simp
  have a4: "cvalue (getCell (copyRowWithFormatting (getRow sheetA 4) (getRow sheetB 2) 1 1) 1)
     = VNumber 2"
    using copyRowWithFormatting_window [of 1 1 1 "getRow sheetA 4" "getRow sheetB 2"] e(2,3)
    by simp
  have a5: "list_all (\<lambda>r. getCell r 1 = emptyCell) (srows (last out))"
    using copyRowWithFormatting_window [of 1 _ _ _ _ ?F mergeConfig out] o
    by (simp add: mergeConfig_window)
  have a6: "length (consolidatedRows (mergeExcelFiles ?F mergeConfig)) = 8"
    by (simp add: example_merge_rows)
  show ?thesis using a1 a2 a3 a4 a5 a6 r by simp
qed

text \<open>
  C1, as stated, fails: with \<^verbatim>\<open>startRow = 2\<close> the second sheet's own row 2 is scanned and
  copied; it is the fourth row of the merged sheet.
\<close>

theorem subsequent_sheet_range_counterexample:
  "startRow mergeConfig = 2
   \<and> map cvalue (getRow sheetB 2) = [VNumber 2, VString (str ''nut''), VNumber 7]
   \<and> map (map cvalue)
        (consolidatedRows (mergeExcelFiles [[sheetA], [sheetB], [sheetC]] mergeConfig)) ! 3
      = [VNull, VString (str ''nut''), VNumber 7]"
proof -
  have "map cvalue (getRow sheetB 2) = [VNumber 2, VString (str ''nut''), VNumber 7]"
    by code_simp
  then show ?thesis by (simp add: example_merge mergeConfig_fields)
qed

text \<open>
  C1, amended. The data rows of every sheet, the first and every later one alike, are
  walked from \<^verbatim>\<open>startRow\<close> to the last row: the rows a sheet adds to the output are the
  header rows (for the first sheet of all only) and then the copies of the rows kept
  among those walked from \<^verbatim>\<open>startRow\<close> up to the stop.
\<close>

theorem data_rows_from_startRow_every_sheet:
  "cursorAtEnd st \<Longrightarrow>
   worksheet (processSheet config sc ec st sh)
   = worksheet st
     @ (if isFirstSheet st then map (freshCopy sc ec) (headerRows config sh) else [])
     @ map (\<lambda>r. freshCopy sc ec (getRow sh r))
         (filter (rowKept config sc ec sh)
            (takeWhile (\<lambda>r. \<not> walkStops sh r) [startRow config..<Suc (lastRowNumber sh)]))"
  using processSheet_effect [of st config sc ec sh]
  by (simp add: dataCopies_def dataRowsCopied_def del: upt_Suc)

theorem data_rows_from_startRow_every_sheet_witness:
  "\<not> isFirstSheet (initialState\<lparr>isFirstSheet := False\<rparr>)
   \<and> cursorAtEnd (initialState\<lparr>isFirstSheet := False\<rparr>)
   \<and> startRow mergeConfig = 2
   \<and> worksheet (processSheet mergeConfig 2 3 (initialState\<lparr>isFirstSheet := False\<rparr>) sheetB)
     = [freshCopy 2 3 (getRow sheetB 2), freshCopy 2 3 (getRow sheetB 3)]"
proof -
  have c: "cursorAtEnd (initialState\<lparr>isFirstSheet := False\<rparr>)"
    by (simp add: cursorAtEnd_def initialState_def)
  have k: "filter (rowKept mergeConfig 2 3 sheetB)
            (takeWhile (\<lambda>r. \<not> walkStops sheetB r)
               [startRow mergeConfig..<Suc (lastRowNumber sheetB)]) = [2, 3]"
    using example_rows_copied(2) by (simp add: dataRowsCopied_def del: upt_Suc)
  show ?thesis
    using data_rows_from_startRow_every_sheet [OF c, of mergeConfig 2 3 sheetB] c
    unfolding k
    by (simp add: initialState_def mergeConfig_fields)
qed























text \<open>
  C9, as stated, fails: the value of an error cell is a structured value with no
  result, text or rich text, and it is not returned as a copy: the extractor yields
  null.
\<close>

theorem extractSafeCellValue_copy_counterexample:
  "wellTyped errorCell \<and> cvalue errorCell = VError (str ''#N/A'')
   \<and> isObjectValue (cvalue errorCell)
   \<and> extractSafeCellValue errorCell = VNull
   \<and> extractSafeCellValue errorCell \<noteq> cvalue errorCell"
  by (simp add: errorCell_def emptyCell_def wellTyped_def extractSafeCellValue_def)

text \<open>
  C9, amended. \<open>extractSafeCellValue\<close> is defined on every cell. On a cell as the
  library builds it: an empty cell yields null; a number, a string and a boolean are
  returned as they are; a formula yields its result, null without one; rich text yields
  the texts of its runs joined; a hyperlink yields its text; an error value yields null.
  No copy of a structured value is made.
\<close>

theorem extractSafeCellValue_shapes:
  assumes "wellTyped c"
  shows "(cvalue c = VNull \<longrightarrow> extractSafeCellValue c = VNull)
    \<and> (cvalue c = VNumber n \<longrightarrow> extractSafeCellValue c = VNumber n)
    \<and> (cvalue c = VString s \<longrightarrow> extractSafeCellValue c = VString s)
    \<and> (cvalue c = VBoolean b \<longrightarrow> extractSafeCellValue c = VBoolean b)
    \<and> (cvalue c = VFormula f r \<longrightarrow>
          extractSafeCellValue c = (case r of None \<Rightarrow> VNull | Some x \<Rightarrow> x))
    \<and> (cvalue c = VSharedFormula f r \<longrightarrow>
          extractSafeCellValue c = (case r of None \<Rightarrow> VNull | Some x \<Rightarrow> x))
    \<and> (cvalue c = VRichText rs \<longrightarrow> extractSafeCellValue c = joinRuns rs)
    \<and> (cvalue c = VHyperlink t h \<longrightarrow> extractSafeCellValue c = VString t)
    \<and> (cvalue c = VError e \<longrightarrow> extractSafeCellValue c = VNull)"
  using assms
  by (auto simp: wellTyped_def extractSafeCellValue_def split: option.splits)

theorem extractSafeCellValue_shapes_witness:
  "wellTyped errorCell \<and> extractSafeCellValue errorCell = VNull
   \<and> wellTyped (textCell ''1/29/2026'')
   \<and> extractSafeCellValue (textCell ''1/29/2026'') = VString (str ''1/29/2026'')
   \<and> wellTyped emptyCell \<and> extractSafeCellValue emptyCell = VNull"
proof -
  have w: "wellTyped errorCell" "wellTyped (textCell ''1/29/2026'')" "wellTyped emptyCell"
    by (simp_all add: wellTyped_def errorCell_def textCell_def emptyCell_def)
  have v: "cvalue errorCell = VError (str ''#N/A'')"
    "cvalue (textCell ''1/29/2026'') = VString (str ''1/29/2026'')"
    "cvalue emptyCell = VNull"
    by (simp_all add: errorCell_def textCell_def emptyCell_def)
  show ?thesis
    using extractSafeCellValue_shapes [OF w(1), where e = "str ''#N/A''"]
      extractSafeCellValue_shapes [OF w(2), where s = "str ''1/29/2026''"]
      extractSafeCellValue_shapes [OF w(3)] w v
    by simp
qed

end
